theory Spec2Isabelle
  imports Complex_Main "HOL-Library.Multiset" "HOL-Library.Log_Nat"
begin

unbundle bit_operations_syntax

section \<open>Python values shared by the modelled modules\<close>

text \<open>
  Exceptions are values. Only the classes that the modelled code can raise are listed;
  \<open>UserError\<close> stands for any exception raised by code supplied by the caller
  (a learner, a getter), tagged with a message.
\<close>

datatype exn =
    AttributeError
  | IndexError
  | KeyError
  | ValueError
  | ZeroDivisionError
  | StatisticsError
  | TypeError
  | CobaException
  | PlainException
  | UserError string

text \<open>
  \<open>xs[i]\<close> on a Python list: a negative index counts from the end, anything
  outside \<open>[-len, len)\<close> raises IndexError.
\<close>

definition py_index :: "nat \<Rightarrow> int \<Rightarrow> exn + nat" where
  "py_index n i =
     (if 0 \<le> i \<and> i < int n then Inr (nat i)
      else if - int n \<le> i \<and> i < 0 then Inr (nat (int n + i))
      else Inl IndexError)"

text \<open>\<open>for x in xs: body\<close> where the body may raise: the first exception ends the loop.\<close>

fun for_each :: "('i \<Rightarrow> 's \<Rightarrow> exn + 's) \<Rightarrow> 'i list \<Rightarrow> 's \<Rightarrow> exn + 's" where
  "for_each body [] s = Inr s"
| "for_each body (x # xs) s =
     (case body x s of Inl e \<Rightarrow> Inl e | Inr s' \<Rightarrow> for_each body xs s')"

subsection \<open>Floating point\<close>

text \<open>
  A Python float is an IEEE binary64 number. Every finite float is a rational, and each
  arithmetic operation returns the exact result rounded to the nearest number with a
  53 bit significand, ties to even. \<open>fl\<close> is that rounding on the rationals. The
  exponent range is not bounded here: overflow to infinity and subnormal numbers are
  outside the model, the magnitudes that occur below are far from both.
\<close>

definition pow2 :: "int \<Rightarrow> rat" where
  "pow2 e = (if 0 \<le> e then 2 ^ nat e else 1 / 2 ^ nat (- e))"

definition ilog2 :: "rat \<Rightarrow> int" where
  \<comment> \<open>the integer \<open>e\<close> with \<open>2^e \<le> q < 2^(e+1)\<close>, for \<open>q > 0\<close>\<close>
  "ilog2 q =
     (let a = fst (quotient_of q); b = snd (quotient_of q); d = bitlen a - bitlen b
      in if pow2 d \<le> q then d else d - 1)"

definition round_half_even :: "rat \<Rightarrow> int" where
  "round_half_even x =
     (let f = \<lfloor>x\<rfloor>; r = x - of_int f
      in if r < 1 / 2 then f
         else if 1 / 2 < r then f + 1
         else if even f then f else f + 1)"

definition fl :: "rat \<Rightarrow> rat" where
  "fl q =
     (if q = 0 then 0
      else let e = ilog2 \<bar>q\<bar> - 52
           in sgn q * of_int (round_half_even (\<bar>q\<bar> / pow2 e)) * pow2 e)"

text \<open>\<open>int(x)\<close> on a float truncates towards zero.\<close>

definition py_int :: "rat \<Rightarrow> int" where
  "py_int x = (if 0 \<le> x then \<lfloor>x\<rfloor> else \<lceil>x\<rceil>)"

text \<open>\<open>float(n)\<close> on an int, and true division \<open>x / y\<close>.\<close>

definition py_float :: "int \<Rightarrow> rat" where
  "py_float n = fl (of_int n)"

definition py_truediv :: "rat \<Rightarrow> rat \<Rightarrow> exn + rat" where
  "py_truediv x y = (if y = 0 then Inl ZeroDivisionError else Inr (fl (x / y)))"


section \<open>coba/random.py: the linear congruential generator\<close>

text \<open>
  \<open>Random.__init__\<close> fixes \<open>_m = 2**30\<close>, \<open>_a = 116646453\<close>, \<open>_c = 9\<close>; the only
  field that changes is \<open>_seed\<close>, so the generator's state is that integer.
  \<open>_m_is_power_of_2\<close> is true for this \<open>_m\<close>, so \<open>_next\<close> always takes the
  \<open>&\<close> branch.
\<close>

definition rand_m :: int where "rand_m = 2 ^ 30"
definition rand_a :: int where "rand_a = 116646453"
definition rand_c :: int where "rand_c = 9"
definition rand_m_minus_1 :: int where "rand_m_minus_1 = rand_m - 1"

definition lcg :: "int \<Rightarrow> int" where
  "lcg s = (rand_a * s + rand_c) AND rand_m_minus_1"

fun next_loop :: "nat \<Rightarrow> int \<Rightarrow> int list \<times> int" where
  "next_loop 0 s = ([], s)"
| "next_loop (Suc k) s = (let s' = lcg s; (ns, s'') = next_loop k s' in (s' # ns, s''))"

definition rand_next :: "int \<Rightarrow> int \<Rightarrow> exn + int list \<times> int" where
  "rand_next n s = (if n \<le> 0 then Inl ValueError else Inr (next_loop (nat n) s))"

text \<open>\<open>number/self._m_minus_1\<close> divides two ints: the exact quotient, rounded once.\<close>

definition randoms :: "int \<Rightarrow> int \<Rightarrow> exn + rat list \<times> int" where
  "randoms n s =
     (case rand_next n s of
        Inl e \<Rightarrow> Inl e
      | Inr (ns, s') \<Rightarrow> Inr (map (\<lambda>number. fl (of_int number / of_int rand_m_minus_1)) ns, s'))"

text \<open>The module level \<open>random()\<close> is \<open>randoms(1)[0]\<close> on the global generator.\<close>

definition random :: "int \<Rightarrow> exn + rat \<times> int" where
  "random s =
     (case randoms 1 s of
        Inl e \<Rightarrow> Inl e
      | Inr (us, s') \<Rightarrow> (case us of [] \<Rightarrow> Inl IndexError | u # _ \<Rightarrow> Inr (u, s')))"

text \<open>
  \<open>randint(a, b)\<close> is \<open>min(int((b-a+1) * random()), b-1) + a\<close>. The product of an int
  and a float converts the int first and rounds the product.
\<close>

definition randint :: "int \<Rightarrow> int \<Rightarrow> int \<Rightarrow> exn + int \<times> int" where
  "randint a b s =
     (case random s of
        Inl e \<Rightarrow> Inl e
      | Inr (u, s') \<Rightarrow> Inr (min (py_int (fl (py_float (b - a + 1) * u))) (b - 1) + a, s'))"

text \<open>
  \<open>Random.shuffle\<close>: \<open>n\<close> draws, a copy of the input, and for each \<open>i\<close> the swap of
  positions \<open>i\<close> and \<open>j = min(int(i + r[i] * (n-i)), n-1)\<close>.
\<close>

definition swap_items :: "nat \<Rightarrow> int \<Rightarrow> 'a list \<Rightarrow> exn + 'a list" where
  "swap_items i j l =
     (case py_index (length l) (int i) of
        Inl e \<Rightarrow> Inl e
      | Inr i' \<Rightarrow>
          (case py_index (length l) j of
             Inl e \<Rightarrow> Inl e
           | Inr j' \<Rightarrow> Inr (l[i' := l ! j', j' := l ! i'])))"

definition shuffle_index :: "nat \<Rightarrow> rat list \<Rightarrow> nat \<Rightarrow> int" where
  "shuffle_index n r i =
     min (py_int (fl (py_float (int i) + fl (r ! i * py_float (int n - int i))))) (int n - 1)"

definition shuffle :: "'a list \<Rightarrow> int \<Rightarrow> exn + 'a list \<times> int" where
  "shuffle sequence s =
     (let n = length sequence in
      case randoms (int n) s of
        Inl e \<Rightarrow> Inl e
      | Inr (r, s') \<Rightarrow>
          (case for_each (\<lambda>i l. swap_items i (shuffle_index n r i) l) [0..<n] sequence of
             Inl e \<Rightarrow> Inl e
           | Inr l \<Rightarrow> Inr (l, s')))"


text \<open>
  \<open>shuffle\<close> above is the computation on the items. The method gets its argument as an
  object: in the store below a list lives at an address, \<open>l = list(sequence)\<close> puts a
  copy at a new address, the swaps write to that copy, and \<open>l\<close> is returned.
\<close>

record 'a store =
  cells :: "nat \<Rightarrow> 'a list"
  next_free :: nat

definition swap_in_store :: "nat \<Rightarrow> nat \<Rightarrow> int \<Rightarrow> 'a store \<Rightarrow> exn + 'a store" where
  "swap_in_store l i j st =
     (case swap_items i j (cells st l) of
        Inl e \<Rightarrow> Inl e
      | Inr xs \<Rightarrow> Inr (st\<lparr>cells := (cells st)(l := xs)\<rparr>))"

definition shuffle_object :: "'a store \<Rightarrow> nat \<Rightarrow> int \<Rightarrow> exn + nat \<times> 'a store \<times> int" where
  "shuffle_object st sequence s =
     (let n = length (cells st sequence) in
      case randoms (int n) s of
        Inl e \<Rightarrow> Inl e
      | Inr (r, s') \<Rightarrow>
          (let l = next_free st;
               st1 = st\<lparr>cells := (cells st)(l := cells st sequence), next_free := Suc l\<rparr>
           in case for_each (\<lambda>i. swap_in_store l i (shuffle_index n r i)) [0..<n] st1 of
                Inl e \<Rightarrow> Inl e
              | Inr st2 \<Rightarrow> Inr (l, st2, s')))"

subsection \<open>Facts about the rounding and the generator\<close>

lemma pow2_pos: "0 < pow2 e"
  by (simp add: pow2_def)

lemma round_half_even_nonneg: "0 \<le> x \<Longrightarrow> 0 \<le> round_half_even x"
  by (simp add: round_half_even_def Let_def)

lemma fl_nonneg: "0 \<le> q \<Longrightarrow> 0 \<le> fl q"
  by (simp add: fl_def Let_def round_half_even_nonneg pow2_pos less_imp_le sgn_if)

lemma pow2_power_int: "pow2 e = power_int 2 e"
  by (simp add: pow2_def power_int_def field_simps)

lemma pow2_add: "pow2 (x + y) = pow2 x * pow2 y"
  by (simp add: pow2_power_int power_int_add)

lemma pow2_less_iff: "pow2 x < pow2 y \<longleftrightarrow> x < y"
proof
  assume "pow2 x < pow2 y"
  show "x < y"
  proof (rule ccontr)
    assume "\<not> x < y"
    then have "pow2 y \<le> pow2 x" by (simp add: pow2_power_int power_int_increasing)
    with \<open>pow2 x < pow2 y\<close> show False by simp
  qed
next
  assume "x < y"
  then show "pow2 x < pow2 y" by (simp add: pow2_power_int power_int_strict_increasing)
qed

lemma pow2_of_nat: "pow2 (int n) = 2 ^ n"
  by (simp add: pow2_power_int)

lemma pow2_nonneg_eq: "0 \<le> e \<Longrightarrow> pow2 e = 2 ^ nat e"
  by (simp add: pow2_def)

lemma ilog2_bounds:
  assumes "0 < q"
  shows "pow2 (ilog2 q) \<le> q \<and> q < pow2 (ilog2 q + 1)"
proof -
  define a where "a = fst (quotient_of q)"
  define b where "b = snd (quotient_of q)"
  have b: "0 < b" by (simp add: b_def quotient_of_denom_pos')
  have q: "q = of_int a / of_int b"
    using quotient_of_div [of q a b] by (simp add: a_def b_def)
  with assms b have a: "0 < a" by (simp add: zero_less_divide_iff)
  have qb: "q * of_int b = of_int a" using b by (simp add: q)
  define d where "d = bitlen a - bitlen b"
  have la: "1 \<le> bitlen a" and lb: "1 \<le> bitlen b"
    using a b bitlen_eq_zero_iff [of a] bitlen_eq_zero_iff [of b] bitlen_nonneg [of a] bitlen_nonneg [of b]
    by linarith+
  have "a < 2 ^ nat (bitlen a)" "2 ^ nat (bitlen b - 1) \<le> b"
    using bitlen_bounds [OF a] bitlen_bounds [OF b] by simp_all
  then have 1: "rat_of_int a < pow2 (bitlen a)" "pow2 (bitlen b - 1) \<le> rat_of_int b"
    using la lb by (simp_all add: pow2_nonneg_eq)
  have "q * pow2 (bitlen b - 1) \<le> q * of_int b"
    using 1(2) assms by (intro mult_left_mono) simp_all
  with qb 1(1) have "q * pow2 (bitlen b - 1) < pow2 (bitlen a)" by simp
  moreover have "pow2 (d + 1) * pow2 (bitlen b - 1) = pow2 (bitlen a)"
    by (simp add: d_def flip: pow2_add)
  ultimately have "q * pow2 (bitlen b - 1) < pow2 (d + 1) * pow2 (bitlen b - 1)" by simp
  then have up: "q < pow2 (d + 1)"
    using pow2_pos [of "bitlen b - 1"] by (simp only: mult_less_cancel_right_pos)
  have "2 ^ nat (bitlen a - 1) \<le> a" "b < 2 ^ nat (bitlen b)"
    using bitlen_bounds [OF a] bitlen_bounds [OF b] by simp_all
  then have 2: "pow2 (bitlen a - 1) \<le> rat_of_int a" "rat_of_int b < pow2 (bitlen b)"
    using la lb by (simp_all add: pow2_nonneg_eq)
  have "q * of_int b < q * pow2 (bitlen b)"
    using 2(2) assms by (intro mult_strict_left_mono) simp_all
  with qb 2(1) have "pow2 (bitlen a - 1) < q * pow2 (bitlen b)" by simp
  moreover have "pow2 (d - 1) * pow2 (bitlen b) = pow2 (bitlen a - 1)"
    by (simp add: d_def flip: pow2_add)
  ultimately have "pow2 (d - 1) * pow2 (bitlen b) < q * pow2 (bitlen b)" by simp
  then have lo: "pow2 (d - 1) < q"
    using pow2_pos [of "bitlen b"] by (simp only: mult_less_cancel_right_pos)
  have "ilog2 q = (if pow2 d \<le> q then d else d - 1)"
    by (simp add: ilog2_def Let_def a_def b_def d_def)
  with up lo show ?thesis by (auto simp: not_le)
qed

lemma ilog2_unique:
  assumes "pow2 e \<le> q" "q < pow2 (e + 1)"
  shows "ilog2 q = e"
proof -
  have "0 < q" using assms(1) pow2_pos [of e] by simp
  from ilog2_bounds [OF this] assms
  have "pow2 (ilog2 q) < pow2 (e + 1)" "pow2 e < pow2 (ilog2 q + 1)" by simp_all
  then show ?thesis by (simp add: pow2_less_iff)
qed

lemma round_half_even_of_int: "round_half_even (of_int m) = m"
  by (simp add: round_half_even_def)

lemma round_half_even_near:
  assumes "2 * of_int m - 1 < 2 * x" "2 * x < 2 * of_int m + 1"
  shows "round_half_even x = m"
proof -
  have "\<lfloor>x\<rfloor> = m \<or> \<lfloor>x\<rfloor> = m - 1" using assms by linarith
  then show ?thesis
  proof
    assume f: "\<lfloor>x\<rfloor> = m"
    then have "x - of_int m < 1 / 2" using assms by linarith
    with f show ?thesis by (simp add: round_half_even_def)
  next
    assume f: "\<lfloor>x\<rfloor> = m - 1"
    then have "1 / 2 < x - of_int (m - 1)" using assms by simp
    with f show ?thesis by (simp add: round_half_even_def Let_def)
  qed
qed

lemma fl_pos_eq:
  assumes "pow2 (e + 52) \<le> q" "q < pow2 (e + 53)"
  shows "fl q = of_int (round_half_even (q / pow2 e)) * pow2 e"
proof -
  have q: "0 < q" using assms(1) pow2_pos [of "e + 52"] by simp
  have "ilog2 q = e + 52" using assms by (intro ilog2_unique) (simp_all add: add.commute add.left_commute)
  with q show ?thesis by (simp add: fl_def)
qed

lemma fl_of_int:
  assumes "\<bar>n\<bar> < 2 ^ 53"
  shows "fl (of_int n) = of_int n"
proof (cases "n = 0")
  case True
  then show ?thesis by (simp add: fl_def)
next
  case False
  define e where "e = ilog2 (of_int \<bar>n\<bar>) - 52"
  have pos: "0 < rat_of_int \<bar>n\<bar>" using False by simp
  from ilog2_bounds [OF pos] have b: "pow2 (e + 52) \<le> of_int \<bar>n\<bar>" by (simp add: e_def)
  have "rat_of_int \<bar>n\<bar> < pow2 53" using assms by (simp add: pow2_nonneg_eq)
  with b have "pow2 (e + 52) < pow2 53" by simp
  then have e: "e \<le> 0" by (simp add: pow2_less_iff)
  have "pow2 e * pow2 (- e) = 1" by (simp flip: pow2_add add: pow2_def)
  moreover have "pow2 (- e) = of_int (2 ^ nat (- e))" using e by (simp add: pow2_nonneg_eq)
  ultimately have "rat_of_int \<bar>n\<bar> / pow2 e = of_int (\<bar>n\<bar> * 2 ^ nat (- e))"
    using pow2_pos [of e] by (simp add: field_simps)
  then have "round_half_even (rat_of_int \<bar>n\<bar> / pow2 e) = \<bar>n\<bar> * 2 ^ nat (- e)"
    by (simp only: round_half_even_of_int)
  moreover have "rat_of_int (\<bar>n\<bar> * 2 ^ nat (- e)) * pow2 e = of_int \<bar>n\<bar>"
    using \<open>pow2 e * pow2 (- e) = 1\<close> \<open>pow2 (- e) = of_int (2 ^ nat (- e))\<close> by (simp add: mult.assoc mult.commute)
  ultimately have "fl (of_int n) = sgn (rat_of_int n) * of_int \<bar>n\<bar>"
    using False by (simp add: fl_def e_def Let_def mult.assoc)
  then show ?thesis by (simp add: sgn_if)
qed

lemma fl_cert:
  assumes "pow2 (e + 52) \<le> q" "q < pow2 (e + 53)"
    and "2 * of_int m - 1 < 2 * (q / pow2 e)" "2 * (q / pow2 e) < 2 * of_int m + 1"
  shows "fl q = of_int m * pow2 e"
  using fl_pos_eq [OF assms(1,2)] round_half_even_near [OF assms(3,4)] by simp

lemma py_float_small: "\<bar>n\<bar> < 2 ^ 53 \<Longrightarrow> py_float n = of_int n"
  by (simp add: py_float_def fl_of_int)

lemma for_each_map: "for_each (\<lambda>i. g (f i)) xs s = for_each g (map f xs) s"
  by (induction xs arbitrary: s) (simp_all split: sum.splits)

lemma fl_one: "fl 1 = 1"
  using fl_of_int [of 1] by simp

lemma py_int_nonneg: "0 \<le> x \<Longrightarrow> 0 \<le> py_int x"
  by (simp add: py_int_def)

lemma lcg_mod: "lcg s = (rand_a * s + rand_c) mod 2 ^ 30"
proof -
  have "rand_m_minus_1 = mask 30"
    by (simp add: rand_m_minus_1_def rand_m_def mask_eq_exp_minus_1)
  then have "lcg s = take_bit 30 (rand_a * s + rand_c)"
    by (simp only: lcg_def take_bit_eq_mask)
  then show ?thesis
    by (simp only: take_bit_eq_mod)
qed

lemma lcg_nonneg: "0 \<le> lcg s"
  by (simp add: lcg_mod)

lemma random_eq: "random s = Inr (fl (of_int (lcg s) / of_int rand_m_minus_1), lcg s)"
  by (simp add: random_def randoms_def rand_next_def Let_def)

lemma next_loop_props:
  "next_loop k s = (ns, s') \<Longrightarrow> length ns = k \<and> (\<forall>x \<in> set ns. 0 \<le> x)"
proof (induction k arbitrary: s ns s')
  case 0
  then show ?case by simp
next
  case (Suc k)
  obtain ms t where r: "next_loop k (lcg s) = (ms, t)" by (cases "next_loop k (lcg s)")
  with Suc.prems have "ns = lcg s # ms" by (simp add: Let_def)
  with Suc.IH [OF r] show ?case by (simp add: lcg_nonneg)
qed

lemma randoms_props:
  assumes "0 < n"
  shows "\<exists>r s'. randoms n s = Inr (r, s') \<and> length r = nat n \<and> (\<forall>u \<in> set r. 0 \<le> u)"
proof -
  obtain ns s' where r: "next_loop (nat n) s = (ns, s')" by (cases "next_loop (nat n) s")
  have m: "0 \<le> rat_of_int rand_m_minus_1" by (simp add: rand_m_minus_1_def rand_m_def)
  from next_loop_props [OF r] assms r m show ?thesis
    by (auto simp: randoms_def rand_next_def intro!: fl_nonneg divide_nonneg_nonneg)
qed

subsection \<open>randint\<close>

text \<open>
  Claim C6: for all integers \<open>a \<le> b\<close> and every generator state, \<open>randint(a, b)\<close>
  returns an integer in \<open>[a, b]\<close>, both endpoints are attainable, and a draw equal to
  1.0 is clamped to \<open>b\<close>.

  The code clamps the scaled draw to \<open>b - 1\<close> before it adds \<open>a\<close>, where the range
  needs \<open>b - a\<close>. For \<open>a = b = 0\<close> the clamp is \<open>-1\<close>, below every draw, so from every
  state the result is \<open>-1\<close>, outside \<open>[0, 0]\<close>.
\<close>

theorem randint_0_0: "randint 0 0 s = Inr (- 1, lcg s)"
proof -
  let ?u = "fl (of_int (lcg s) / of_int rand_m_minus_1)"
  have "0 \<le> ?u"
    by (intro fl_nonneg divide_nonneg_nonneg) (simp_all add: lcg_nonneg rand_m_minus_1_def rand_m_def)
  then have "0 \<le> py_int (fl (py_float 1 * ?u))"
    by (simp add: py_float_def fl_one fl_nonneg py_int_nonneg)
  then show ?thesis
    by (simp add: randint_def random_eq)
qed

text \<open>
  The state 536166110 steps to \<open>_m - 1\<close>, so the draw is exactly 1.0. With
  \<open>a = 2, b = 3\<close> the clamp \<open>b - 1 = 2\<close> does not cut the scaled draw \<open>2\<close>, and the result
  is \<open>4 > b\<close>; with \<open>a = 0, b = 3\<close> the same draw gives \<open>2\<close>, not \<open>b\<close>.
\<close>

lemma randint_draw_one_above: "randint 2 3 536166110 = Inr (4, 1073741823)"
  by code_simp

lemma randint_draw_one_below: "randint 0 3 536166110 = Inr (2, 1073741823)"
  by code_simp

subsection \<open>shuffle\<close>

lemma shuffle_index_range:
  assumes "i < n" "0 \<le> r ! i"
  shows "0 \<le> shuffle_index n r i \<and> shuffle_index n r i < int n"
proof -
  have "0 \<le> py_float (int i)" "0 \<le> py_float (int n - int i)"
    using assms by (simp_all add: py_float_def fl_nonneg)
  then have "0 \<le> py_int (fl (py_float (int i) + fl (r ! i * py_float (int n - int i))))"
    using assms by (intro py_int_nonneg fl_nonneg add_nonneg_nonneg mult_nonneg_nonneg)
  with assms show ?thesis by (simp add: shuffle_index_def)
qed

lemma swap_items_ok:
  assumes "i < length l" "0 \<le> j" "j < int (length l)"
  shows "\<exists>l'. swap_items i j l = Inr l' \<and> mset l' = mset l \<and> length l' = length l"
  using assms by (simp add: swap_items_def py_index_def mset_swap)

lemma shuffle_loop_ok:
  assumes "\<forall>i \<in> set is. i < length l \<and> 0 \<le> r ! i" "n = length l"
  shows "\<exists>l'. for_each (\<lambda>i l. swap_items i (shuffle_index n r i) l) is l = Inr l'
           \<and> mset l' = mset l \<and> length l' = length l"
  using assms
proof (induction "is" arbitrary: l)
  case Nil
  then show ?case by simp
next
  case (Cons i "is")
  from Cons.prems have i: "i < n" "0 \<le> r ! i" by simp_all
  from shuffle_index_range [OF i] Cons.prems
  obtain l1 where l1: "swap_items i (shuffle_index n r i) l = Inr l1"
    "mset l1 = mset l" "length l1 = length l"
    using swap_items_ok [of i l "shuffle_index n r i"] by auto
  with Cons.prems have "\<forall>i \<in> set is. i < length l1 \<and> 0 \<le> r ! i" "n = length l1" by simp_all
  from Cons.IH [OF this] l1 show ?case by auto
qed

lemma shuffle_permutation:
  assumes "xs \<noteq> []"
  shows "\<exists>ys s'. shuffle xs s = Inr (ys, s') \<and> mset ys = mset xs \<and> length ys = length xs"
proof -
  from assms have "0 < int (length xs)" by simp
  from randoms_props [OF this, of s] obtain r s' where
    r: "randoms (int (length xs)) s = Inr (r, s')" "length r = length xs" "\<forall>u \<in> set r. 0 \<le> u"
    by auto
  then have "\<forall>i \<in> set [0..<length xs]. i < length xs \<and> 0 \<le> r ! i" by simp
  from shuffle_loop_ok [OF this refl] r(1) show ?thesis
    by (auto simp: shuffle_def)
qed

lemma for_each_in_store:
  "for_each (\<lambda>i. swap_in_store l i (f i)) xs st =
     (case for_each (\<lambda>i. swap_items i (f i)) xs (cells st l) of
        Inl e \<Rightarrow> Inl e
      | Inr ys \<Rightarrow> Inr (st\<lparr>cells := (cells st)(l := ys)\<rparr>))"
proof (induction xs arbitrary: st)
  case Nil
  then show ?case by simp
next
  case (Cons x xs)
  show ?case
  proof (cases "swap_items x (f x) (cells st l)")
    case (Inl e)
    then have "swap_in_store l x (f x) st = Inl e" by (simp add: swap_in_store_def)
    with Inl show ?thesis by simp
  next
    case (Inr ys)
    then have "swap_in_store l x (f x) st = Inr (st\<lparr>cells := (cells st)(l := ys)\<rparr>)"
      by (simp add: swap_in_store_def)
    moreover have "(\<lambda>a. if a = l then zs else cells st a) = (cells st)(l := zs)" for zs
      by (simp add: fun_upd_def)
    ultimately show ?thesis using Inr by (simp add: Cons.IH split: sum.splits)
  qed
qed

lemma shuffle_object_eq:
  "shuffle_object st sequence s =
     (case shuffle (cells st sequence) s of
        Inl e \<Rightarrow> Inl e
      | Inr (ys, s') \<Rightarrow>
          Inr (next_free st,
               st\<lparr>cells := (cells st)(next_free st := ys), next_free := Suc (next_free st)\<rparr>, s'))"
  by (simp add: shuffle_object_def shuffle_def Let_def for_each_in_store
      split: sum.splits prod.splits)


text \<open>
  On a non-empty sequence the method returns a new list with the same length and the same
  items, and leaves its argument, like every other object of the store, as it was.
\<close>

lemma shuffle_object_permutation:
  assumes "cells st sequence \<noteq> []" "sequence < next_free st"
  shows "\<exists>l st' s'. shuffle_object st sequence s = Inr (l, st', s') \<and>
           l = next_free st \<and> next_free st' = Suc l \<and>
           (\<forall>a. a \<noteq> l \<longrightarrow> cells st' a = cells st a) \<and>
           cells st' sequence = cells st sequence \<and>
           mset (cells st' l) = mset (cells st sequence) \<and>
           length (cells st' l) = length (cells st sequence)"
proof -
  from shuffle_permutation [OF assms(1), of s] obtain ys s' where
    "shuffle (cells st sequence) s = Inr (ys, s')" "mset ys = mset (cells st sequence)"
    "length ys = length (cells st sequence)"
    by blast
  with assms(2) show ?thesis by (simp add: shuffle_object_eq)
qed


text \<open>
  Claim C10: for every finite input sequence and every seed, \<open>shuffle\<close> returns a
  permutation of its input (same length, same multiset of elements), and the input is
  left unmodified.

  \<open>shuffle\<close> draws \<open>len(sequence)\<close> numbers before it copies the input, and \<open>_next\<close>
  refuses \<open>n \<le> 0\<close>: on the empty sequence \<open>shuffle\<close> raises ValueError, where its
  docstring promises a new sequence (the empty one is the only permutation of the input).
\<close>

theorem shuffle_empty_raises: "shuffle ([] :: nat list) 0 = Inl ValueError"
  by (simp add: shuffle_def randoms_def rand_next_def)

text \<open>The same on the store: the call raises before a copy is made.\<close>

lemma shuffle_object_empty_raises:
  "shuffle_object \<lparr>cells = (\<lambda>a. [] :: nat list), next_free = 1\<rparr> 0 0 = Inl ValueError"
  by (simp add: shuffle_object_eq shuffle_def randoms_def rand_next_def)


section \<open>coba/benchmarks.py: the batch schedule\<close>

text \<open>
  \<open>UniversalBenchmark.__init__\<close> stores \<open>batch_count\<close> and \<open>batch_size\<close>, each
  possibly \<open>None\<close>; \<open>batch_size\<close> is an int, a sequence of ints or a function from
  the batch index to a size. \<open>collections.Sequence\<close> is read as Python before 3.10
  resolves it (the abstract class of sequences).
\<close>

datatype batch_size = SizeInt int | SizeSeq "int list" | SizeFn "nat \<Rightarrow> int"

record batching =
  batch_count :: "int option"
  batch_size :: "batch_size option"

text \<open>\<open>batches[i] += 1\<close>\<close>

definition increment_at :: "int \<Rightarrow> int list \<Rightarrow> exn + int list" where
  "increment_at i batches =
     (case py_index (length batches) i of
        Inl e \<Rightarrow> Inl e
      | Inr k \<Rightarrow> Inr (batches[k := batches ! k + 1]))"

text \<open>
  The \<open>batch_count\<close> branch: \<open>[int(float(n)/K)] * K\<close>, then one more interaction for
  the batches at \<open>int(i*spacing)\<close>, \<open>i\<close> in \<open>range(remainder)\<close>, with
  \<open>spacing = float(K)/remainder\<close>. Python's \<open>%\<close> on ints is the floored modulus, as
  \<open>mod\<close> is on \<open>int\<close>. A list repeated a negative number of times is empty.
\<close>

definition spaced_index :: "rat \<Rightarrow> nat \<Rightarrow> int" where
  \<comment> \<open>\<open>int(i*spacing)\<close>\<close>
  "spaced_index spacing i = py_int (fl (py_float (int i) * spacing))"

definition count_batch_sizes :: "int \<Rightarrow> int \<Rightarrow> exn + int list" where
  "count_batch_sizes K n =
     (case py_truediv (py_float n) (py_float K) of
        Inl e \<Rightarrow> Inl e
      | Inr q \<Rightarrow>
          (let batches = replicate (nat K) (py_int q);
               remainder = n mod K
           in if 0 < remainder then
                (case py_truediv (py_float K) (py_float remainder) of
                   Inl e \<Rightarrow> Inl e
                 | Inr spacing \<Rightarrow>
                     for_each (\<lambda>i. increment_at (spaced_index spacing i))
                       [0..<nat remainder] batches)
              else Inr batches))"

text \<open>
  The callable branch: the loop keeps the next size while
  \<open>remaining_interactions > next_batch_size\<close>. Nothing bounds the number of rounds (a
  function that returns 0 never lets the loop end), so the loop is a partial function:
  \<open>None\<close> is a run that does not return.
\<close>

partial_function (option) fn_batch_loop :: "(nat \<Rightarrow> int) \<Rightarrow> nat \<Rightarrow> int \<Rightarrow> int list \<Rightarrow> int list option" where
  "fn_batch_loop f i remaining_interactions batch_sizes =
     (if f i < remaining_interactions
      then fn_batch_loop f (i + 1) (remaining_interactions - f i) (batch_sizes @ [f i])
      else Some batch_sizes)"

declare fn_batch_loop.simps [code]

definition batch_sizes :: "batching \<Rightarrow> int \<Rightarrow> (exn + int list) option" where
  "batch_sizes b n_interactions =
     (case batch_count b of
        Some K \<Rightarrow> Some (count_batch_sizes K n_interactions)
      | None \<Rightarrow>
          (case batch_size b of
             Some (SizeInt S) \<Rightarrow>
               Some (case py_truediv (py_float n_interactions) (py_float S) of
                       Inl e \<Rightarrow> Inl e
                     | Inr q \<Rightarrow> Inr (replicate (nat (py_int q)) S))
           | Some (SizeSeq sizes) \<Rightarrow> Some (Inr sizes)
           | Some (SizeFn f) \<Rightarrow> map_option Inr (fn_batch_loop f 0 n_interactions [])
           | None \<Rightarrow> Some (Inl PlainException)))"

section \<open>coba/simulations.py: the sizes computed by Batch.filter\<close>

text \<open>
  \<open>Batch\<close> holds \<open>count\<close>, \<open>size\<close> and \<open>sizes\<close>, each possibly \<open>None\<close>. \<open>filter\<close>
  computes the sizes it hands to \<open>BatchedSimulation\<close>; for \<open>count\<close> the enlarged
  batches are at \<open>int(i*len(sizes)/remainder)\<close>, an exact integer product divided once.
  \<open>n\<close> is \<open>len(item.interactions)\<close>.
\<close>

record batch_filter =
  bf_count :: "int option"
  bf_size :: "int option"
  bf_sizes :: "int list option"

definition exact_index :: "nat \<Rightarrow> nat \<Rightarrow> int \<Rightarrow> exn + int" where
  \<comment> \<open>\<open>int(i*len(sizes)/remainder)\<close>\<close>
  "exact_index i len remainder =
     (case py_truediv (of_int (int i * int len)) (of_int remainder) of
        Inl e \<Rightarrow> Inl e
      | Inr x \<Rightarrow> Inr (py_int x))"

definition increment_or_raise :: "exn + int \<Rightarrow> int list \<Rightarrow> exn + int list" where
  \<comment> \<open>\<open>sizes[k] += 1\<close> where computing \<open>k\<close> may have raised\<close>
  "increment_or_raise r sz = (case r of Inl e \<Rightarrow> Inl e | Inr k \<Rightarrow> increment_at k sz)"

definition batch_filter_count :: "int \<Rightarrow> int \<Rightarrow> exn + int list" where
  "batch_filter_count K n =
     (case py_truediv (py_float n) (py_float K) of
        Inl e \<Rightarrow> Inl e
      | Inr q \<Rightarrow>
          (let sizes = replicate (nat K) (py_int q);
               remainder = n - sum_list sizes
           in for_each (\<lambda>i sz. increment_or_raise (exact_index i (length sz) remainder) sz)
                [0..<nat remainder] sizes))"

definition batch_filter_sizes :: "batch_filter \<Rightarrow> int \<Rightarrow> exn + int list" where
  "batch_filter_sizes b n =
     (case (case bf_count b of None \<Rightarrow> Inr None
            | Some K \<Rightarrow> map_sum id Some (batch_filter_count K n)) of
        Inl e \<Rightarrow> Inl e
      | Inr s1 \<Rightarrow>
          (case (case bf_size b of None \<Rightarrow> Inr s1
                 | Some S \<Rightarrow>
                     (case py_truediv (of_int n) (of_int S) of
                        Inl e \<Rightarrow> Inl e
                      | Inr q \<Rightarrow> Inr (Some (replicate (nat (py_int q)) S)))) of
             Inl e \<Rightarrow> Inl e
           | Inr s2 \<Rightarrow>
               (case (case bf_sizes b of None \<Rightarrow> s2 | Some sizes \<Rightarrow> Some sizes) of
                  None \<Rightarrow> Inl PlainException
                | Some sizes \<Rightarrow> Inr sizes)))"


subsection \<open>Evaluating the schedules\<close>

text \<open>
  The roundings below are checked against their definition: \<open>fl q\<close> is \<open>m * 2^e\<close> once
  \<open>q\<close> lies in the binade of \<open>e\<close> and \<open>m\<close> is the nearest integer to \<open>q / 2^e\<close>.
\<close>

lemma py_int_fl_cert:
  assumes "pow2 (e + 52) \<le> q" "q < pow2 (e + 53)"
    and "2 * of_int m - 1 < 2 * (q / pow2 e)" "2 * (q / pow2 e) < 2 * of_int m + 1"
    and "0 \<le> k" "of_int k \<le> of_int m * pow2 e" "of_int m * pow2 e < of_int k + 1"
  shows "py_int (fl q) = k"
proof -
  have "fl q = of_int m * pow2 e" using assms(1-4) by (rule fl_cert)
  moreover have "\<lfloor>of_int m * pow2 e\<rfloor> = k" using assms(6,7) by (rule floor_unique)
  moreover have "(0::rat) \<le> of_int k" using assms(5) by simp
  then have "0 \<le> of_int m * pow2 e" using assms(6) by (rule order_trans)
  ultimately show ?thesis by (simp add: py_int_def)
qed

definition spacing_30_22 :: rat where
  "spacing_30_22 = 6141272219141585 / 4503599627370496"

lemma spacing_30_22: "py_truediv (py_float 30) (py_float 22) = Inr spacing_30_22"
  using fl_cert [of "-52" "30 / 22" "6141272219141585"]
  by (simp add: py_truediv_def py_float_small pow2_def spacing_30_22_def)

lemma whole_22_30: "py_truediv (py_float 22) (py_float 30) = Inr (6605279453476727 / 9007199254740992)"
  using fl_cert [of "-53" "22 / 30" "6605279453476727"]
  by (simp add: py_truediv_def py_float_small pow2_def)

lemma py_int_whole_22_30: "py_int (6605279453476727 / 9007199254740992) = 0"
proof -
  have "\<lfloor>6605279453476727 / 9007199254740992 :: rat\<rfloor> = 0" by (rule floor_unique) simp_all
  then show ?thesis by (simp add: py_int_def)
qed

lemma spaced_index_0: "spaced_index spacing_30_22 0 = 0"
  by (simp add: spaced_index_def py_float_small fl_def py_int_def)

lemma spaced_index_1: "spaced_index spacing_30_22 1 = 1"
  using py_int_fl_cert [of "-52" "1 * spacing_30_22" "6141272219141585" 1]
  by (simp add: pow2_def spacing_30_22_def spaced_index_def py_float_small)

lemma spaced_index_2: "spaced_index spacing_30_22 2 = 2"
  using py_int_fl_cert [of "-51" "2 * spacing_30_22" "6141272219141585" 2]
  by (simp add: pow2_def spacing_30_22_def spaced_index_def py_float_small)

lemma spaced_index_3: "spaced_index spacing_30_22 3 = 4"
  using py_int_fl_cert [of "-50" "3 * spacing_30_22" "4605954164356189" 4]
  by (simp add: pow2_def spacing_30_22_def spaced_index_def py_float_small)

lemma spaced_index_4: "spaced_index spacing_30_22 4 = 5"
  using py_int_fl_cert [of "-50" "4 * spacing_30_22" "6141272219141585" 5]
  by (simp add: pow2_def spacing_30_22_def spaced_index_def py_float_small)

lemma spaced_index_5: "spaced_index spacing_30_22 5 = 6"
  using py_int_fl_cert [of "-50" "5 * spacing_30_22" "7676590273926981" 6]
  by (simp add: pow2_def spacing_30_22_def spaced_index_def py_float_small)

lemma spaced_index_6: "spaced_index spacing_30_22 6 = 8"
  using py_int_fl_cert [of "-49" "6 * spacing_30_22" "4605954164356189" 8]
  by (simp add: pow2_def spacing_30_22_def spaced_index_def py_float_small)

lemma spaced_index_7: "spaced_index spacing_30_22 7 = 9"
  using py_int_fl_cert [of "-49" "7 * spacing_30_22" "5373613191748887" 9]
  by (simp add: pow2_def spacing_30_22_def spaced_index_def py_float_small)

lemma spaced_index_8: "spaced_index spacing_30_22 8 = 10"
  using py_int_fl_cert [of "-49" "8 * spacing_30_22" "6141272219141585" 10]
  by (simp add: pow2_def spacing_30_22_def spaced_index_def py_float_small)

lemma spaced_index_9: "spaced_index spacing_30_22 9 = 12"
  using py_int_fl_cert [of "-49" "9 * spacing_30_22" "6908931246534283" 12]
  by (simp add: pow2_def spacing_30_22_def spaced_index_def py_float_small)

lemma spaced_index_10: "spaced_index spacing_30_22 10 = 13"
  using py_int_fl_cert [of "-49" "10 * spacing_30_22" "7676590273926981" 13]
  by (simp add: pow2_def spacing_30_22_def spaced_index_def py_float_small)

lemma spaced_index_11: "spaced_index spacing_30_22 11 = 14"
  using py_int_fl_cert [of "-49" "11 * spacing_30_22" "8444249301319679" 14]
  by (simp add: pow2_def spacing_30_22_def spaced_index_def py_float_small)

lemma spaced_index_12: "spaced_index spacing_30_22 12 = 16"
  using py_int_fl_cert [of "-48" "12 * spacing_30_22" "4605954164356189" 16]
  by (simp add: pow2_def spacing_30_22_def spaced_index_def py_float_small)

lemma spaced_index_13: "spaced_index spacing_30_22 13 = 17"
  using py_int_fl_cert [of "-48" "13 * spacing_30_22" "4989783678052538" 17]
  by (simp add: pow2_def spacing_30_22_def spaced_index_def py_float_small)

lemma spaced_index_14: "spaced_index spacing_30_22 14 = 19"
  using py_int_fl_cert [of "-48" "14 * spacing_30_22" "5373613191748887" 19]
  by (simp add: pow2_def spacing_30_22_def spaced_index_def py_float_small)

lemma spaced_index_15: "spaced_index spacing_30_22 15 = 20"
  using py_int_fl_cert [of "-48" "15 * spacing_30_22" "5757442705445236" 20]
  by (simp add: pow2_def spacing_30_22_def spaced_index_def py_float_small)

lemma spaced_index_16: "spaced_index spacing_30_22 16 = 21"
  using py_int_fl_cert [of "-48" "16 * spacing_30_22" "6141272219141585" 21]
  by (simp add: pow2_def spacing_30_22_def spaced_index_def py_float_small)

lemma spaced_index_17: "spaced_index spacing_30_22 17 = 23"
  using py_int_fl_cert [of "-48" "17 * spacing_30_22" "6525101732837934" 23]
  by (simp add: pow2_def spacing_30_22_def spaced_index_def py_float_small)

lemma spaced_index_18: "spaced_index spacing_30_22 18 = 24"
  using py_int_fl_cert [of "-48" "18 * spacing_30_22" "6908931246534283" 24]
  by (simp add: pow2_def spacing_30_22_def spaced_index_def py_float_small)

lemma spaced_index_19: "spaced_index spacing_30_22 19 = 25"
  using py_int_fl_cert [of "-48" "19 * spacing_30_22" "7292760760230632" 25]
  by (simp add: pow2_def spacing_30_22_def spaced_index_def py_float_small)

lemma spaced_index_20: "spaced_index spacing_30_22 20 = 27"
  using py_int_fl_cert [of "-48" "20 * spacing_30_22" "7676590273926981" 27]
  by (simp add: pow2_def spacing_30_22_def spaced_index_def py_float_small)

lemma spaced_index_21: "spaced_index spacing_30_22 21 = 28"
  using py_int_fl_cert [of "-48" "21 * spacing_30_22" "8060419787623330" 28]
  by (simp add: pow2_def spacing_30_22_def spaced_index_def py_float_small)

lemma upt_22: "[0..<22] = [0, 1, 2, 3, 4, 5, 6, 7, 8, 9, 10, 11, 12, 13, 14, 15, 16, 17, 18, 19, 20, 21]"
  by code_simp

lemma spaced_indexes_30_22:
  "map (spaced_index spacing_30_22) [0..<22] =
     [0, 1, 2, 4, 5, 6, 8, 9, 10, 12, 13, 14, 16, 17, 19, 20, 21, 23, 24, 25, 27, 28]"
  by (simp only: upt_22 list.map spaced_index_0 spaced_index_1 spaced_index_2 spaced_index_3 spaced_index_4 spaced_index_5 spaced_index_6 spaced_index_7 spaced_index_8 spaced_index_9 spaced_index_10 spaced_index_11 spaced_index_12 spaced_index_13 spaced_index_14 spaced_index_15 spaced_index_16 spaced_index_17 spaced_index_18 spaced_index_19 spaced_index_20 spaced_index_21)

lemma increments_30_22:
  "for_each increment_at
     [0, 1, 2, 4, 5, 6, 8, 9, 10, 12, 13, 14, 16, 17, 19, 20, 21, 23, 24, 25, 27, 28]
     (replicate 30 0) =
   Inr [1, 1, 1, 0, 1, 1, 1, 0, 1, 1, 1, 0, 1, 1, 1, 0, 1, 1, 0, 1, 1, 1, 0, 1, 1, 1, 0, 1, 1, 0]"
  by code_simp


lemma fl_zero: "fl 0 = 0"
  by (simp add: fl_def)

lemma fl_numeral: "numeral n < (2::int) ^ 53 \<Longrightarrow> fl (numeral n) = numeral n"
  using fl_of_int [of "numeral n"] by simp

lemma increment_at_length: "increment_at k sz = Inr sz' \<Longrightarrow> length sz' = length sz"
  by (auto simp: increment_at_def split: sum.splits)

lemma for_each_fixed_length:
  assumes "\<And>i sz sz'. body i sz = Inr sz' \<Longrightarrow> length sz' = length sz"
    and "\<And>i sz. length sz = n \<Longrightarrow> body i sz = body' i sz"
    and "length s = n"
  shows "for_each body xs s = for_each body' xs s"
  using assms(3)
proof (induction xs arbitrary: s)
  case Nil
  then show ?case by simp
next
  case (Cons x xs)
  then show ?case
    using assms(1) [of x s] assms(2) [of s x] by (auto split: sum.splits)
qed


lemma count_batch_sizes_30_22:
  "count_batch_sizes 30 22 =
     for_each increment_at (map (spaced_index spacing_30_22) [0..<22]) (replicate 30 0)"
  by (simp add: count_batch_sizes_def whole_22_30 spacing_30_22 py_int_whole_22_30 for_each_map
      del: for_each.simps)

lemma exact_index_0: "exact_index 0 30 22 = Inr 0"
  by (simp add: exact_index_def py_truediv_def fl_def py_int_def)

lemma exact_index_1: "exact_index 1 30 22 = Inr 1"
  using py_int_fl_cert [of "-52" "30 / 22" "6141272219141585" 1]
  by (simp add: pow2_def exact_index_def py_truediv_def)

lemma exact_index_2: "exact_index 2 30 22 = Inr 2"
  using py_int_fl_cert [of "-51" "60 / 22" "6141272219141585" 2]
  by (simp add: pow2_def exact_index_def py_truediv_def)

lemma exact_index_3: "exact_index 3 30 22 = Inr 4"
  using py_int_fl_cert [of "-50" "90 / 22" "4605954164356189" 4]
  by (simp add: pow2_def exact_index_def py_truediv_def)

lemma exact_index_4: "exact_index 4 30 22 = Inr 5"
  using py_int_fl_cert [of "-50" "120 / 22" "6141272219141585" 5]
  by (simp add: pow2_def exact_index_def py_truediv_def)

lemma exact_index_5: "exact_index 5 30 22 = Inr 6"
  using py_int_fl_cert [of "-50" "150 / 22" "7676590273926982" 6]
  by (simp add: pow2_def exact_index_def py_truediv_def)

lemma exact_index_6: "exact_index 6 30 22 = Inr 8"
  using py_int_fl_cert [of "-49" "180 / 22" "4605954164356189" 8]
  by (simp add: pow2_def exact_index_def py_truediv_def)

lemma exact_index_7: "exact_index 7 30 22 = Inr 9"
  using py_int_fl_cert [of "-49" "210 / 22" "5373613191748887" 9]
  by (simp add: pow2_def exact_index_def py_truediv_def)

lemma exact_index_8: "exact_index 8 30 22 = Inr 10"
  using py_int_fl_cert [of "-49" "240 / 22" "6141272219141585" 10]
  by (simp add: pow2_def exact_index_def py_truediv_def)

lemma exact_index_9: "exact_index 9 30 22 = Inr 12"
  using py_int_fl_cert [of "-49" "270 / 22" "6908931246534284" 12]
  by (simp add: pow2_def exact_index_def py_truediv_def)

lemma exact_index_10: "exact_index 10 30 22 = Inr 13"
  using py_int_fl_cert [of "-49" "300 / 22" "7676590273926982" 13]
  by (simp add: pow2_def exact_index_def py_truediv_def)

lemma exact_index_11: "exact_index 11 30 22 = Inr 15"
  using fl_of_int [of 15] by (simp add: exact_index_def py_truediv_def py_int_def)

lemma exact_index_12: "exact_index 12 30 22 = Inr 16"
  using py_int_fl_cert [of "-48" "360 / 22" "4605954164356189" 16]
  by (simp add: pow2_def exact_index_def py_truediv_def)

lemma exact_index_13: "exact_index 13 30 22 = Inr 17"
  using py_int_fl_cert [of "-48" "390 / 22" "4989783678052538" 17]
  by (simp add: pow2_def exact_index_def py_truediv_def)

lemma exact_index_14: "exact_index 14 30 22 = Inr 19"
  using py_int_fl_cert [of "-48" "420 / 22" "5373613191748887" 19]
  by (simp add: pow2_def exact_index_def py_truediv_def)

lemma exact_index_15: "exact_index 15 30 22 = Inr 20"
  using py_int_fl_cert [of "-48" "450 / 22" "5757442705445236" 20]
  by (simp add: pow2_def exact_index_def py_truediv_def)

lemma exact_index_16: "exact_index 16 30 22 = Inr 21"
  using py_int_fl_cert [of "-48" "480 / 22" "6141272219141585" 21]
  by (simp add: pow2_def exact_index_def py_truediv_def)

lemma exact_index_17: "exact_index 17 30 22 = Inr 23"
  using py_int_fl_cert [of "-48" "510 / 22" "6525101732837935" 23]
  by (simp add: pow2_def exact_index_def py_truediv_def)

lemma exact_index_18: "exact_index 18 30 22 = Inr 24"
  using py_int_fl_cert [of "-48" "540 / 22" "6908931246534284" 24]
  by (simp add: pow2_def exact_index_def py_truediv_def)

lemma exact_index_19: "exact_index 19 30 22 = Inr 25"
  using py_int_fl_cert [of "-48" "570 / 22" "7292760760230633" 25]
  by (simp add: pow2_def exact_index_def py_truediv_def)

lemma exact_index_20: "exact_index 20 30 22 = Inr 27"
  using py_int_fl_cert [of "-48" "600 / 22" "7676590273926982" 27]
  by (simp add: pow2_def exact_index_def py_truediv_def)

lemma exact_index_21: "exact_index 21 30 22 = Inr 28"
  using py_int_fl_cert [of "-48" "630 / 22" "8060419787623331" 28]
  by (simp add: pow2_def exact_index_def py_truediv_def)

lemma exact_indexes_30_22:
  "map (\<lambda>i. exact_index i 30 22) [0..<22] =
     [Inr 0, Inr 1, Inr 2, Inr 4, Inr 5, Inr 6, Inr 8, Inr 9, Inr 10, Inr 12, Inr 13, Inr 15,
      Inr 16, Inr 17, Inr 19, Inr 20, Inr 21, Inr 23, Inr 24, Inr 25, Inr 27, Inr 28]"
  by (simp only: upt_22 list.map exact_index_0 exact_index_1 exact_index_2 exact_index_3 exact_index_4 exact_index_5 exact_index_6 exact_index_7 exact_index_8 exact_index_9 exact_index_10 exact_index_11 exact_index_12 exact_index_13 exact_index_14 exact_index_15 exact_index_16 exact_index_17 exact_index_18 exact_index_19 exact_index_20 exact_index_21)

lemma exact_increments_30_22:
  "for_each increment_or_raise
     [Inr 0, Inr 1, Inr 2, Inr 4, Inr 5, Inr 6, Inr 8, Inr 9, Inr 10, Inr 12, Inr 13, Inr 15,
      Inr 16, Inr 17, Inr 19, Inr 20, Inr 21, Inr 23, Inr 24, Inr 25, Inr 27, Inr 28]
     (replicate 30 0) =
   Inr [1, 1, 1, 0, 1, 1, 1, 0, 1, 1, 1, 0, 1, 1, 0, 1, 1, 1, 0, 1, 1, 1, 0, 1, 1, 1, 0, 1, 1, 0]"
  by code_simp

lemma batch_filter_sizes_22_of_30:
  "batch_filter_sizes \<lparr>bf_count = Some 30, bf_size = None, bf_sizes = None\<rparr> 22 =
     Inr [1, 1, 1, 0, 1, 1, 1, 0, 1, 1, 1, 0, 1, 1, 0, 1, 1, 1, 0, 1, 1, 1, 0, 1, 1, 1, 0, 1, 1, 0]"
proof -
  let ?body = "\<lambda>i sz. increment_or_raise (exact_index i (length sz) 22) sz"
  have "batch_filter_count 30 22 = for_each ?body [0..<22] (replicate 30 0)"
    by (simp add: batch_filter_count_def whole_22_30 py_int_whole_22_30 Let_def sum_list_replicate del: for_each.simps)
  also have "\<dots> = for_each (\<lambda>i. increment_or_raise (exact_index i 30 22)) [0..<22] (replicate 30 0)"
    by (rule for_each_fixed_length [where n = 30])
       (auto simp: increment_or_raise_def increment_at_length split: sum.splits)
  also have "\<dots> = for_each increment_or_raise (map (\<lambda>i. exact_index i 30 22) [0..<22]) (replicate 30 0)"
    by (rule for_each_map)
  also have "\<dots> = Inr [1, 1, 1, 0, 1, 1, 1, 0, 1, 1, 1, 0, 1, 1, 0, 1, 1, 1, 0, 1, 1, 1, 0, 1, 1, 1, 0, 1, 1, 0]"
    by (simp only: exact_indexes_30_22 exact_increments_30_22)
  finally show ?thesis
    by (simp add: batch_filter_sizes_def)
qed


text \<open>
  Claim C4: for every interaction count \<open>N \<ge> 0\<close> and batch count \<open>K \<ge> 1\<close> the
  \<open>batch_count\<close> policy returns \<open>K\<close> sizes that sum to \<open>N\<close>, each \<open>N div K\<close> or one more,
  with the \<open>r = N mod K\<close> enlarged batches at the indices \<open>\<lfloor>i*K/r\<rfloor>\<close>, \<open>i < r\<close>; \<open>N = 5\<close>,
  \<open>K = 2\<close> gives \<open>[3, 2]\<close>.

  \<open>UniversalBenchmark._batch_sizes\<close> rounds \<open>K/r\<close> to a float first and multiplies by
  \<open>i\<close> afterwards. For \<open>N = 22\<close>, \<open>K = 30\<close>, \<open>i = 11\<close> the exact product is 15, but the
  rounded spacing times 11 rounds to the float just below 15 and \<open>int\<close> cuts it to 14:
  batch 14 is enlarged and batch 15 is not. \<open>Batch.filter\<close> divides the exact product
  \<open>i*K\<close> once and enlarges batch 15 (lemma \<open>batch_filter_sizes_22_of_30\<close>).
\<close>

theorem count_batch_sizes_22_of_30:
  "batch_sizes \<lparr>batch_count = Some 30, batch_size = None\<rparr> 22 =
     Some (Inr [1, 1, 1, 0, 1, 1, 1, 0, 1, 1, 1, 0, 1, 1, 1, 0, 1, 1, 0, 1, 1, 1, 0, 1, 1, 1, 0, 1, 1, 0])"
  by (simp add: batch_sizes_def count_batch_sizes_30_22 spaced_indexes_30_22 increments_30_22
      del: for_each.simps)

text \<open>The example of the claim holds on the code.\<close>

lemma count_batch_sizes_5_of_2:
  "batch_sizes \<lparr>batch_count = Some 2, batch_size = None\<rparr> 5 = Some (Inr [3, 2])"
proof -
  have f: "fl (5 / 2) = 5 / 2"
    using fl_cert [of "-51" "5 / 2" "5629499534213120"] by (simp add: pow2_def)
  have g: "\<lfloor>5 / 2 :: rat\<rfloor> = 2" by (rule floor_unique) simp_all
  show ?thesis
    by (simp add: batch_sizes_def count_batch_sizes_def py_truediv_def py_float_small py_int_def
        fl_numeral fl_zero spaced_index_def increment_at_def py_index_def numeral_2_eq_2 f g)
qed

text \<open>
  Claim C5: the callable \<open>batch_size\<close> policy keeps each batch \<open>fn(0), fn(1), ...\<close> while
  the remaining budget can fund it (\<open>remaining \<ge> fn(i)\<close>); a batch that exactly uses up
  the budget is included, so \<open>N = 6\<close> with \<open>fn\<close> constantly 3 gives \<open>[3, 3]\<close>.

  The loop continues only while \<open>remaining_interactions > next_batch_size\<close>: with 3
  interactions left and a next size of 3 it stops, and the schedule is \<open>[3]\<close>. The int
  policy with the same size on the same simulation gives \<open>[3, 3]\<close>.
\<close>

theorem fn_batch_sizes_exact_fit:
  "batch_sizes \<lparr>batch_count = None, batch_size = Some (SizeFn (\<lambda>i. 3))\<rparr> 6 = Some (Inr [3])"
  by (simp add: batch_sizes_def fn_batch_loop.simps)

lemma int_batch_sizes_exact_fit:
  "batch_sizes \<lparr>batch_count = None, batch_size = Some (SizeInt 3)\<rparr> 6 = Some (Inr [3, 3])"
  by (simp add: batch_sizes_def py_truediv_def py_float_small fl_numeral py_int_def numeral_2_eq_2)


section \<open>coba/contexts/cachers.py: DiskCacher\<close>

text \<open>
  A Python \<open>str\<close> is a sequence of Unicode code points, here a list of naturals;
  \<open>codes\<close> writes an ASCII literal that way. \<open>str.isalnum\<close> is Python's, not the
  repository's: the model takes the predicate on code points as the parameter
  \<open>isalnum\<close>. \<open>latin1_isalnum\<close> is that predicate on the code points below 256
  (digits, ASCII letters, and the letters and numeric characters of Latin-1), used where a
  concrete predicate is needed.
\<close>

definition codes :: "string \<Rightarrow> nat list" where
  "codes s = map of_char s"

definition latin1_isalnum :: "nat \<Rightarrow> bool" where
  "latin1_isalnum c =
     ((48 \<le> c \<and> c \<le> 57) \<or> (65 \<le> c \<and> c \<le> 90) \<or> (97 \<le> c \<and> c \<le> 122) \<or> c = 170 \<or>
      (178 \<le> c \<and> c \<le> 179) \<or> c = 181 \<or> (185 \<le> c \<and> c \<le> 186) \<or> (188 \<le> c \<and> c \<le> 190) \<or>
      (192 \<le> c \<and> c \<le> 214) \<or> (216 \<le> c \<and> c \<le> 246) \<or> (248 \<le> c \<and> c \<le> 255))"

text \<open>\<open>c.isalnum() or c in (' ','.','_')\<close>\<close>

definition key_char :: "(nat \<Rightarrow> bool) \<Rightarrow> nat \<Rightarrow> bool" where
  "key_char isalnum c = (isalnum c \<or> c = 32 \<or> c = 46 \<or> c = 95)"

definition cache_name :: "(nat \<Rightarrow> bool) \<Rightarrow> nat list \<Rightarrow> exn + nat list" where
  "cache_name isalnum key =
     (if \<not> list_all (key_char isalnum) key then Inl CobaException
      else Inr (key @ codes ''.gz''))"

text \<open>
  The cacher's state is its directory (possibly \<open>None\<close>) and the files of the file
  system: a path, the pair of a directory and a name, has the bytes that reading the file
  through \<open>gzip\<close> returns. Compression, and the errors of the file system, are outside
  the model. \<open>_cache_path\<close> is \<open>self._cache_dir/self._cache_name(key)\<close>: the name is
  computed before the division, which raises TypeError on \<open>None\<close>.
\<close>

record disk_cacher =
  cache_dir :: "nat list option"
  files :: "(nat list \<times> nat list) \<rightharpoonup> nat list"

definition cache_path :: "(nat \<Rightarrow> bool) \<Rightarrow> disk_cacher \<Rightarrow> nat list \<Rightarrow> exn + nat list \<times> nat list" where
  "cache_path isalnum d key =
     (case cache_name isalnum key of
        Inl e \<Rightarrow> Inl e
      | Inr name \<Rightarrow> (case cache_dir d of None \<Rightarrow> Inl TypeError | Some dir \<Rightarrow> Inr (dir, name)))"

text \<open>\<open>__contains__\<close>\<close>

definition contains :: "(nat \<Rightarrow> bool) \<Rightarrow> disk_cacher \<Rightarrow> nat list \<Rightarrow> exn + bool" where
  "contains isalnum d key =
     (if cache_dir d = None then Inr False
      else (case cache_path isalnum d key of Inl e \<Rightarrow> Inl e | Inr p \<Rightarrow> Inr (files d p \<noteq> None)))"

definition rmv :: "(nat \<Rightarrow> bool) \<Rightarrow> disk_cacher \<Rightarrow> nat list \<Rightarrow> exn + disk_cacher" where
  "rmv isalnum d key =
     (case cache_path isalnum d key of
        Inl e \<Rightarrow> Inl e
      | Inr p \<Rightarrow> Inr (if files d p \<noteq> None then d\<lparr>files := (files d)(p := None)\<rparr> else d))"

text \<open>
  \<open>line.rstrip(b'\r\n')\<close> drops the trailing carriage returns and line feeds; iterating
  a binary file yields its lines, each up to and including its line feed.
\<close>

definition rstrip_crlf :: "nat list \<Rightarrow> nat list" where
  "rstrip_crlf line = rev (dropWhile (\<lambda>c. c = 13 \<or> c = 10) (rev line))"

fun file_lines :: "nat list \<Rightarrow> nat list \<Rightarrow> nat list list" where
  "file_lines cur [] = (if cur = [] then [] else [rev cur])"
| "file_lines cur (c # cs) =
     (if c = 10 then rev (c # cur) # file_lines [] cs else file_lines (c # cur) cs)"

text \<open>
  \<open>get\<close> is a generator function: the call runs none of its body and never raises. The
  model's \<open>get\<close> is that generator, a function of \<open>()\<close>; applying it is draining the
  generator, which returns the lines or raises what the body raises at the first
  \<open>next\<close>.
\<close>

definition get :: "(nat \<Rightarrow> bool) \<Rightarrow> disk_cacher \<Rightarrow> nat list \<Rightarrow> unit \<Rightarrow> exn + nat list list" where
  "get isalnum d key = (\<lambda>_.
     case contains isalnum d key of
       Inl e \<Rightarrow> Inl e
     | Inr False \<Rightarrow> Inr []
     | Inr True \<Rightarrow>
         (case cache_path isalnum d key of
            Inl e \<Rightarrow> Inl e
          | Inr p \<Rightarrow>
              (case files d p of
                 None \<Rightarrow> Inl PlainException
               | Some content \<Rightarrow> Inr (map rstrip_crlf (file_lines [] content)))))"

text \<open>
  \<open>put\<close>: a value that is \<open>bytes\<close> is one line. The result is the state after the call
  and the exception it raised, if any. The handler asks \<open>key in self\<close> again, removes the
  partial file and raises the exception again.
\<close>

datatype cache_value = Bytes "nat list" | Lines "nat list list"

definition put :: "(nat \<Rightarrow> bool) \<Rightarrow> disk_cacher \<Rightarrow> nat list \<Rightarrow> cache_value \<Rightarrow> disk_cacher \<times> exn option" where
  "put isalnum d key val =
     (if cache_dir d = None then (d, None)
      else case contains isalnum d key of
        Inr True \<Rightarrow> (d, None)
      | Inr False \<Rightarrow>
          (let lines = (case val of Bytes b \<Rightarrow> [b] | Lines ls \<Rightarrow> ls) in
           case cache_path isalnum d key of
             Inr p \<Rightarrow>
               (d\<lparr>files := (files d)(p \<mapsto> concat (map (\<lambda>line. rstrip_crlf line @ [13, 10]) lines))\<rparr>,
                None)
           | Inl e \<Rightarrow>
               (case contains isalnum d key of
                  Inl e' \<Rightarrow> (d, Some e')
                | Inr False \<Rightarrow> (d, Some e)
                | Inr True \<Rightarrow>
                    (case rmv isalnum d key of Inl e' \<Rightarrow> (d, Some e') | Inr d' \<Rightarrow> (d', Some e))))
      | Inl e \<Rightarrow>
          (case contains isalnum d key of
             Inl e' \<Rightarrow> (d, Some e')
           | Inr False \<Rightarrow> (d, Some e)
           | Inr True \<Rightarrow>
               (case rmv isalnum d key of Inl e' \<Rightarrow> (d, Some e') | Inr d' \<Rightarrow> (d', Some e))))"

text \<open>The specification's rule, in its words: the key matches \<open>[A-Za-z0-9 ._]+\<close>.\<close>

definition spec_key_char :: "nat \<Rightarrow> bool" where
  "spec_key_char c =
     ((65 \<le> c \<and> c \<le> 90) \<or> (97 \<le> c \<and> c \<le> 122) \<or> (48 \<le> c \<and> c \<le> 57) \<or>
      c = 32 \<or> c = 46 \<or> c = 95)"

definition spec_key_ok :: "nat list \<Rightarrow> bool" where
  "spec_key_ok key = (key \<noteq> [] \<and> list_all spec_key_char key)"



text \<open>
  Every key the specification's expression matches is accepted, whenever \<open>isalnum\<close>
  holds of the ASCII letters and digits, as Python's does.
\<close>

lemma spec_key_accepted:
  assumes "\<And>c. (48 \<le> c \<and> c \<le> 57) \<or> (65 \<le> c \<and> c \<le> 90) \<or> (97 \<le> c \<and> c \<le> 122) \<Longrightarrow> isalnum c"
    and "spec_key_ok key"
  shows "cache_name isalnum key = Inr (key @ codes ''.gz'')"
proof -
  have "spec_key_char c \<Longrightarrow> key_char isalnum c" for c
    using assms(1) [of c] by (auto simp: spec_key_char_def key_char_def)
  with assms(2) have "list_all (key_char isalnum) key"
    by (auto simp: spec_key_ok_def list_all_iff)
  then show ?thesis by (simp add: cache_name_def)
qed

text \<open>What \<open>put\<close> wrote, \<open>get\<close> reads back line by line.\<close>

lemma put_then_get_example:
  "get latin1_isalnum
     (fst (put latin1_isalnum \<lparr>cache_dir = Some (codes ''c''), files = Map.empty\<rparr> (codes ''k'')
             (Lines [[97, 13, 10], [98]]))) (codes ''k'') ()
   = Inr [[97], [98]]"
  by (simp add: get_def put_def contains_def cache_path_def cache_name_def key_char_def
      latin1_isalnum_def codes_def rstrip_crlf_def Let_def)


section \<open>coba/environments/simulated/synthetics.py: LinearSyntheticSimulation\<close>

text \<open>
  \<open>CobaRandom\<close>, \<open>InteractionsEncoder\<close> and \<open>LambdaSimulation\<close> are not among the
  sources, so the constructor is modelled over two parameters: \<open>rnd\<close>, one uniform draw
  from a generator state together with the next state (\<open>rng.random()\<close>), and \<open>encode\<close>,
  the feature vector of a context and an action (\<open>X_encoder.encode(x=..., a=...)\<close>).
  The claim is about sums and products of the drawn numbers; in this section a float is
  read as the real number it stands for and rounding is left out.
\<close>




















section \<open>coba/benchmarks.py: UniversalBenchmark.evaluate\<close>

subsection \<open>Interactions, simulations, learners, results\<close>

text \<open>
  A context is \<open>None\<close>, a tuple or any other hashable value; \<open>feature_count\<close> tells
  the three apart.
\<close>

datatype 'c py_context = NoContext | TupleContext "'c list" | ValueContext 'c

record ('c, 'a) interaction =
  i_key :: int
  i_context :: "'c py_context"
  i_actions :: "'a list"

text \<open>
  What \<open>evaluate\<close> reads of a simulation object: whether it is an instance of
  \<open>LazySimulation\<close>, the property \<open>interactions\<close> (which raises on a lazy simulation
  that is not loaded) and the attribute \<open>rewards\<close>. The attribute is optional in the
  model: \<open>None\<close> is an object without it, as every class of coba/simulations.py, which
  name their method \<open>reward\<close>. \<open>LazySimulation\<close> defines \<open>__enter__\<close>, \<open>__exit__\<close> and
  \<open>load_simulation\<close>, no \<open>load\<close> and no \<open>unload\<close>: both calls raise AttributeError
  on a lazy simulation.
\<close>

record ('c, 'a) simulation =
  s_lazy :: bool
  s_interactions :: "exn + ('c, 'a) interaction list"
  s_rewards :: "((int \<times> int) list \<Rightarrow> exn + rat list) option"

text \<open>
  A learner is its state and its two methods, which may raise and may change the state;
  \<open>l_name\<close> is \<open>None\<close> when reading \<open>learner.name\<close> raises. A learner factory is
  modelled by the fresh learner it returns.
\<close>

record ('s, 'c, 'a) learner =
  l_state :: 's
  l_choose :: "'s \<Rightarrow> int \<Rightarrow> 'c py_context \<Rightarrow> 'a list \<Rightarrow> exn + int \<times> 's"
  l_learn :: "'s \<Rightarrow> int \<Rightarrow> 'c py_context \<Rightarrow> 'a \<Rightarrow> rat \<Rightarrow> exn + 's"
  l_name :: "string option"

text \<open>
  \<open>SummaryStats\<close> is not among the sources: \<open>from_observations\<close> is a parameter of the
  model, a function of the batch's rewards.
\<close>

record 'st result =
  learner_name :: string
  simulation_index :: nat
  batch_index :: nat
  interaction_count :: nat
  median_feature_count :: rat
  median_action_count :: rat
  stats :: 'st

subsection \<open>Helpers of evaluate\<close>

definition feature_count_of :: "('c, 'a) interaction \<Rightarrow> nat" where
  "feature_count_of i =
     (case i_context i of TupleContext xs \<Rightarrow> length xs | NoContext \<Rightarrow> 0 | ValueContext _ \<Rightarrow> 1)"

definition action_count_of :: "('c, 'a) interaction \<Rightarrow> nat" where
  "action_count_of i = length (i_actions i)"

text \<open>\<open>statistics.median\<close>: the middle of the sorted data, the mean of the two middles.\<close>

definition median :: "nat list \<Rightarrow> exn + rat" where
  "median xs =
     (let ys = sort xs; n = length ys in
      if n = 0 then Inl StatisticsError
      else if odd n then Inr (of_nat (ys ! (n div 2)))
      else Inr ((of_nat (ys ! (n div 2 - 1)) + of_nat (ys ! (n div 2))) / 2))"

text \<open>\<open>str(learner_index)\<close>\<close>

fun str_of_nat :: "nat \<Rightarrow> string" where
  "str_of_nat n =
     (if n < 10 then [char_of (48 + n)] else str_of_nat (n div 10) @ [char_of (48 + n mod 10)])"

definition safe_name :: "nat \<Rightarrow> ('s, 'c, 'a) learner \<Rightarrow> string" where
  "safe_name learner_index l = (case l_name l of Some name \<Rightarrow> name | None \<Rightarrow> str_of_nat learner_index)"

text \<open>
  \<open>batch_indexes = iter(b for i, s in enumerate(batch_sizes) for b in repeat(i, s))\<close>:
  index \<open>i\<close> repeated \<open>s\<close> times, not at all for \<open>s \<le> 0\<close>.
\<close>

definition batch_indexes_of :: "int list \<Rightarrow> nat list" where
  "batch_indexes_of sizes = concat (map (\<lambda>(i, s). replicate (nat s) i) (enumerate 0 sizes))"

text \<open>\<open>itertools.groupby\<close> on the first component: runs of equal keys.\<close>

fun groupby :: "(nat \<times> 'x) list \<Rightarrow> (nat \<times> 'x list) list" where
  "groupby [] = []"
| "groupby ((b, x) # rest) =
     (case groupby rest of
        [] \<Rightarrow> [(b, [x])]
      | (b', xs) # groups \<Rightarrow> if b' = b then (b, x # xs) # groups else (b, [x]) # (b', xs) # groups)"

subsection \<open>One batch\<close>

text \<open>
  The inner loop: \<open>choose\<close> for every interaction of the batch, in order, and the chosen
  action \<open>i.actions[choice]\<close>. An observation is \<open>(key, context, choice, action)\<close>.
\<close>

fun choose_all ::
  "('s, 'c, 'a) learner \<Rightarrow> 's \<Rightarrow> ('c, 'a) interaction list
     \<Rightarrow> exn + (int \<times> 'c py_context \<times> int \<times> 'a) list \<times> 's" where
  "choose_all l s [] = Inr ([], s)"
| "choose_all l s (i # rest) =
     (case l_choose l s (i_key i) (i_context i) (i_actions i) of
        Inl e \<Rightarrow> Inl e
      | Inr (choice, s') \<Rightarrow>
          (case py_index (length (i_actions i)) choice of
             Inl e \<Rightarrow> Inl e
           | Inr k \<Rightarrow>
               (case choose_all l s' rest of
                  Inl e \<Rightarrow> Inl e
                | Inr (obs, s'') \<Rightarrow> Inr ((i_key i, i_context i, choice, i_actions i ! k) # obs, s''))))"

text \<open>\<open>for (key,context,action,reward) in zip(keys,contexts,actions,rewards): learner.learn(...)\<close>\<close>

fun learn_all ::
  "('s, 'c, 'a) learner \<Rightarrow> 's \<Rightarrow> ((int \<times> 'c py_context \<times> int \<times> 'a) \<times> rat) list \<Rightarrow> exn + 's" where
  "learn_all l s [] = Inr s"
| "learn_all l s (((key, context, choice, action), reward) # rest) =
     (case l_learn l s key context action reward of
        Inl e \<Rightarrow> Inl e
      | Inr s' \<Rightarrow> learn_all l s' rest)"

text \<open>
  The body of the loop over the groups: the choices, \<open>simulation.rewards(...)\<close>, the
  statistics, the name, \<open>learn\<close>, and the Result that is appended.
\<close>

definition run_batch ::
  "(rat list \<Rightarrow> 'st) \<Rightarrow> ('c, 'a) simulation \<Rightarrow> nat \<Rightarrow> nat \<times> rat \<times> rat \<Rightarrow> nat
     \<Rightarrow> ('s, 'c, 'a) learner \<Rightarrow> nat \<times> ('c, 'a) interaction list \<Rightarrow> 's \<Rightarrow> exn + 'st result \<times> 's" where
  "run_batch from_observations simulation sim_index counts learner_index l batch_group s =
     (case choose_all l s (snd batch_group) of
        Inl e \<Rightarrow> Inl e
      | Inr (obs, s1) \<Rightarrow>
          (case s_rewards simulation of
             None \<Rightarrow> Inl AttributeError
           | Some rewards_of \<Rightarrow>
               (case rewards_of (map (\<lambda>(key, context, choice, action). (key, choice)) obs) of
                  Inl e \<Rightarrow> Inl e
                | Inr rewards \<Rightarrow>
                    (case learn_all l s1 (zip obs rewards) of
                       Inl e \<Rightarrow> Inl e
                     | Inr s2 \<Rightarrow>
                         Inr (\<lparr>learner_name = safe_name learner_index l,
                               simulation_index = sim_index,
                               batch_index = fst batch_group,
                               interaction_count = fst counts,
                               median_feature_count = fst (snd counts),
                               median_action_count = snd (snd counts),
                               stats = from_observations rewards\<rparr>, s2)))))"

text \<open>
  The loop over the groups. \<open>results\<close> is appended to in place, so the records of the
  batches that ended before an exception stay in it.
\<close>

fun run_batches ::
  "(rat list \<Rightarrow> 'st) \<Rightarrow> ('c, 'a) simulation \<Rightarrow> nat \<Rightarrow> nat \<times> rat \<times> rat \<Rightarrow> nat
     \<Rightarrow> ('s, 'c, 'a) learner \<Rightarrow> (nat \<times> ('c, 'a) interaction list) list \<Rightarrow> 's
     \<Rightarrow> 'st result list \<Rightarrow> 'st result list \<times> exn option" where
  "run_batches fo simulation sim_index counts learner_index l [] s results = (results, None)"
| "run_batches fo simulation sim_index counts learner_index l (g # groups) s results =
     (case run_batch fo simulation sim_index counts learner_index l g s of
        Inl e \<Rightarrow> (results, Some e)
      | Inr (r, s') \<Rightarrow>
          run_batches fo simulation sim_index counts learner_index l groups s' (results @ [r]))"

subsection \<open>The learners of one simulation\<close>

text \<open>
  \<open>batch_indexes\<close> is one iterator, made before the loop over the learner factories;
  each learner zips it with the interactions. \<open>zip\<close> takes from \<open>batch_indexes\<close>
  first, so it has taken an index when it finds the interactions exhausted, and CPython's
  \<open>groupby\<close> asks the exhausted \<open>zip\<close> twice (at the end of the last group and for the
  next group): a loop that runs to its end leaves the iterator without its first
  \<open>len(interactions) + 2\<close> items, or empty.
\<close>

fun run_learners ::
  "(rat list \<Rightarrow> 'st) \<Rightarrow> ('c, 'a) simulation \<Rightarrow> nat \<Rightarrow> nat \<times> rat \<times> rat
     \<Rightarrow> ('c, 'a) interaction list \<Rightarrow> (nat \<times> ('s, 'c, 'a) learner) list \<Rightarrow> nat list
     \<Rightarrow> 'st result list \<Rightarrow> 'st result list \<times> exn option" where
  "run_learners fo simulation sim_index counts interactions [] batch_indexes results = (results, None)"
| "run_learners fo simulation sim_index counts interactions ((learner_index, l) # rest) batch_indexes results =
     (let batched_indexed_interactions = zip batch_indexes interactions
      in case run_batches fo simulation sim_index counts learner_index l
                (groupby batched_indexed_interactions) (l_state l) results of
           (results', Some e) \<Rightarrow> (results', Some e)
         | (results', None) \<Rightarrow>
             run_learners fo simulation sim_index counts interactions rest
               (drop (length interactions + 2) batch_indexes) results')"

subsection \<open>One simulation, and the benchmark\<close>

text \<open>
  The body of the \<open>try\<close>. The result is the results list after it and the exception that
  ended it, if any; \<open>None\<close> is a body that does not return (the callable batch policy).
\<close>

definition run_simulation ::
  "(rat list \<Rightarrow> 'st) \<Rightarrow> batching \<Rightarrow> (('s, 'c, 'a) learner) list \<Rightarrow> nat \<Rightarrow> ('c, 'a) simulation
     \<Rightarrow> 'st result list \<Rightarrow> ('st result list \<times> exn option) option" where
  "run_simulation fo b learner_factories sim_index simulation results =
     (if s_lazy simulation then Some (results, Some AttributeError)
      else case s_interactions simulation of
        Inl e \<Rightarrow> Some (results, Some e)
      | Inr interactions \<Rightarrow>
          (case median (map feature_count_of interactions) of
             Inl e \<Rightarrow> Some (results, Some e)
           | Inr mfc \<Rightarrow>
               (case median (map action_count_of interactions) of
                  Inl e \<Rightarrow> Some (results, Some e)
                | Inr mac \<Rightarrow>
                    (case batch_sizes b (int (length interactions)) of
                       None \<Rightarrow> None
                     | Some (Inl e) \<Rightarrow> Some (results, Some e)
                     | Some (Inr sizes) \<Rightarrow>
                         Some (run_learners fo simulation sim_index (length interactions, mfc, mac)
                                 interactions (enumerate 0 learner_factories)
                                 (batch_indexes_of sizes) results)))))"

text \<open>
  The loop over the simulations: the handler logs the exception of the \<open>try\<close>; after it
  \<open>simulation.unload()\<close> is called on a lazy simulation, outside any handler, so its
  AttributeError ends \<open>evaluate\<close>. The value is what \<open>evaluate\<close> returns or raises,
  and the log.
\<close>

fun evaluate_loop ::
  "(rat list \<Rightarrow> 'st) \<Rightarrow> batching \<Rightarrow> (('s, 'c, 'a) learner) list \<Rightarrow> (nat \<times> ('c, 'a) simulation) list
     \<Rightarrow> 'st result list \<Rightarrow> exn list \<Rightarrow> ((exn + 'st result list) \<times> exn list) option" where
  "evaluate_loop fo b learner_factories [] results logged = Some (Inr results, logged)"
| "evaluate_loop fo b learner_factories ((sim_index, simulation) # rest) results logged =
     (case run_simulation fo b learner_factories sim_index simulation results of
        None \<Rightarrow> None
      | Some (results', raised) \<Rightarrow>
          (let logged' = (case raised of None \<Rightarrow> logged | Some e \<Rightarrow> logged @ [e])
           in if s_lazy simulation then Some (Inl AttributeError, logged')
              else evaluate_loop fo b learner_factories rest results' logged'))"

definition evaluate ::
  "(rat list \<Rightarrow> 'st) \<Rightarrow> batching \<Rightarrow> ('c, 'a) simulation list \<Rightarrow> (('s, 'c, 'a) learner) list
     \<Rightarrow> ((exn + 'st result list) \<times> exn list) option" where
  "evaluate fo b simulations learner_factories =
     evaluate_loop fo b learner_factories (enumerate 0 simulations) [] []"


subsection \<open>Concrete simulations and learners\<close>

text \<open>
  \<open>MemorySimulation\<close>: the rewards are a dictionary from \<open>(key, action index)\<close> to the
  reward, and the method \<open>reward\<close> looks every choice up. The object has no attribute
  \<open>rewards\<close>. \<open>with_rewards\<close> is an object that offers a method under the name that
  \<open>evaluate\<close> calls.
\<close>

definition memory_rewards_dict ::
  "('c, 'a) interaction list \<Rightarrow> rat list list \<Rightarrow> (int \<times> int) \<rightharpoonup> rat" where
  "memory_rewards_dict interactions reward_sets =
     map_of (rev (zip (concat (map (\<lambda>i. map (\<lambda>a. (i_key i, int a)) [0..<length (i_actions i)])
                                 interactions))
                      (concat reward_sets)))"

fun memory_reward :: "((int \<times> int) \<rightharpoonup> rat) \<Rightarrow> (int \<times> int) list \<Rightarrow> exn + rat list" where
  "memory_reward d [] = Inr []"
| "memory_reward d (choice # choices) =
     (case d choice of
        None \<Rightarrow> Inl KeyError
      | Some r \<Rightarrow> (case memory_reward d choices of Inl e \<Rightarrow> Inl e | Inr rs \<Rightarrow> Inr (r # rs)))"

definition memory_simulation :: "('c, 'a) interaction list \<Rightarrow> ('c, 'a) simulation" where
  "memory_simulation interactions =
     \<lparr>s_lazy = False, s_interactions = Inr interactions, s_rewards = None\<rparr>"

definition with_rewards ::
  "((int \<times> int) list \<Rightarrow> exn + rat list) \<Rightarrow> ('c, 'a) simulation \<Rightarrow> ('c, 'a) simulation" where
  "with_rewards f simulation = simulation\<lparr>s_rewards := Some f\<rparr>"

text \<open>
  The simulation of the repository's tests,
  \<open>LambdaSimulation(n, lambda i: i, lambda s: [0,1,2], lambda s, a: a)\<close>, and their
  learner, \<open>LambdaLearner(lambda s, A: s % 3, name=...)\<close>; and a learner whose
  \<open>choose\<close> raises.
\<close>

definition test_interactions :: "nat \<Rightarrow> (int, int) interaction list" where
  "test_interactions n =
     map (\<lambda>i. \<lparr>i_key = int i, i_context = ValueContext (int i), i_actions = [0, 1, 2]\<rparr>) [0..<n]"

definition test_reward :: "nat \<Rightarrow> (int \<times> int) list \<Rightarrow> exn + rat list" where
  "test_reward n =
     memory_reward (memory_rewards_dict (test_interactions n) (replicate n [0, 1, 2]))"

definition test_learner :: "string \<Rightarrow> (unit, int, int) learner" where
  "test_learner name =
     \<lparr>l_state = (),
      l_choose = (\<lambda>s key context actions.
         case context of ValueContext c \<Rightarrow> Inr (c mod 3, s) | _ \<Rightarrow> Inl (UserError ''context'')),
      l_learn = (\<lambda>s key context action reward. Inr s),
      l_name = Some name\<rparr>"

definition raising_learner :: "string \<Rightarrow> (unit, int, int) learner" where
  "raising_learner name =
     \<lparr>l_state = (),
      l_choose = (\<lambda>s key context actions. Inl (UserError ''choose'')),
      l_learn = (\<lambda>s key context action reward. Inr s),
      l_name = Some name\<rparr>"

text \<open>A learner whose \<open>choose\<close> raises from the interaction with key \<open>j\<close> on.\<close>

definition raising_from :: "int \<Rightarrow> string \<Rightarrow> (unit, int, int) learner" where
  "raising_from j name =
     \<lparr>l_state = (),
      l_choose = (\<lambda>s key context actions.
         if j \<le> key then Inl (UserError ''choose'')
         else case context of ValueContext c \<Rightarrow> Inr (c mod 3, s) | _ \<Rightarrow> Inl (UserError ''context'')),
      l_learn = (\<lambda>s key context action reward. Inr s),
      l_name = Some name\<rparr>"

definition sizes_policy :: "int list \<Rightarrow> batching" where
  "sizes_policy sizes = \<lparr>batch_count = None, batch_size = Some (SizeSeq sizes)\<rparr>"


text \<open>A subclass of \<open>LazySimulation\<close> that is not loaded.\<close>

definition lazy_simulation :: "(int, int) simulation" where
  "lazy_simulation = \<lparr>s_lazy = True, s_interactions = Inl PlainException, s_rewards = None\<rparr>"


subsection \<open>Facts about evaluate\<close>

lemma run_batch_no_rewards:
  assumes "s_rewards simulation = None"
  shows "\<exists>e. run_batch fo simulation k counts j l g s = Inl e"
  using assms by (auto simp: run_batch_def split: sum.splits)

lemma run_batches_no_rewards:
  assumes "s_rewards simulation = None"
  shows "fst (run_batches fo simulation k counts j l groups s results) = results"
proof (cases groups)
  case Nil
  then show ?thesis by simp
next
  case (Cons g gs)
  from run_batch_no_rewards [OF assms, of fo k counts j l g s] Cons show ?thesis by auto
qed

lemma run_learners_no_rewards:
  assumes "s_rewards simulation = None"
  shows "fst (run_learners fo simulation k counts ints ls bi results) = results"
proof (induction ls arbitrary: bi)
  case Nil
  then show ?case by simp
next
  case (Cons jl ls)
  obtain j l where jl: "jl = (j, l)" by (cases jl)
  obtain r x where rb: "run_batches fo simulation k counts j l (groupby (zip bi ints)) (l_state l) results = (r, x)"
    by (cases "run_batches fo simulation k counts j l (groupby (zip bi ints)) (l_state l) results")
  with run_batches_no_rewards [OF assms, of fo k counts j l "groupby (zip bi ints)" "l_state l" results]
  have r: "r = results" by simp
  show ?case using Cons.IH rb r jl by (cases x) simp_all
qed

lemma run_simulation_no_rewards:
  assumes "s_rewards simulation = None"
    and "run_simulation fo b ls k simulation results = Some out"
  shows "fst out = results"
  using assms(2) run_learners_no_rewards [OF assms(1)]
  by (auto simp: run_simulation_def split: if_splits sum.splits option.splits)

lemma median_nonempty:
  assumes "xs \<noteq> []"
  shows "\<exists>m. median xs = Inr m"
proof -
  let ?ys = "sort xs" and ?n = "length xs"
  have "median xs = Inr (if odd ?n then of_nat (?ys ! (?n div 2))
          else (of_nat (?ys ! (?n div 2 - 1)) + of_nat (?ys ! (?n div 2))) / 2)"
    using assms length_sort [of "\<lambda>x. x" xs] by (auto simp: median_def Let_def simp del: length_sort)
  then show ?thesis by blast
qed

lemma run_simulation_first_batch:
  assumes "s_rewards simulation = None" "\<not> s_lazy simulation" "s_interactions simulation = Inr ints"
    and "ints \<noteq> []" "batch_sizes b (int (length ints)) = Some (Inr sizes)"
    and "groupby (zip (batch_indexes_of sizes) ints) = g # gs"
    and "choose_all l (l_state l) (snd g) = Inr chosen"
  shows "run_simulation fo b (l # rest) k simulation results = Some (results, Some AttributeError)"
proof -
  obtain mfc where mfc: "median (map feature_count_of ints) = Inr mfc"
    using median_nonempty [of "map feature_count_of ints"] assms(4) by auto
  obtain mac where mac: "median (map action_count_of ints) = Inr mac"
    using median_nonempty [of "map action_count_of ints"] assms(4) by auto
  have "run_batch fo simulation k (length ints, mfc, mac) 0 l g (l_state l) = Inl AttributeError"
    using assms(1,7) by (simp add: run_batch_def split: prod.splits)
  then show ?thesis
    using assms mfc mac by (simp add: run_simulation_def)
qed

lemma run_learners_append:
  "run_learners fo simulation k counts ints (xs @ ys) bi results =
     (case run_learners fo simulation k counts ints xs bi results of
        (r, Some e) \<Rightarrow> (r, Some e)
      | (r, None) \<Rightarrow>
          run_learners fo simulation k counts ints ys (drop (length xs * (length ints + 2)) bi) r)"
proof (induction xs arbitrary: bi results)
  case Nil
  then show ?case by (simp split: prod.splits option.splits)
next
  case (Cons jl xs)
  obtain j l where jl: "jl = (j, l)" by (cases jl)
  show ?case
    by (simp add: jl Cons.IH algebra_simps split: prod.splits option.splits)
qed

lemma run_batches_appends:
  assumes "run_batches fo simulation k counts j l groups s results = (r, x)"
  shows "\<exists>rs. r = results @ rs \<and> length rs \<le> length groups \<and>
              (x = None \<longrightarrow> length rs = length groups)"
  using assms
proof (induction groups arbitrary: s results)
  case Nil
  then show ?case by simp
next
  case (Cons g groups)
  show ?case
  proof (cases "run_batch fo simulation k counts j l g s")
    case (Inl e)
    with Cons.prems have "r = results" "x = Some e" by simp_all
    then show ?thesis by simp
  next
    case (Inr p)
    obtain rec s' where p: "p = (rec, s')" by (cases p)
    from Cons.prems Inr p
    have "run_batches fo simulation k counts j l groups s' (results @ [rec]) = (r, x)" by simp
    from Cons.IH [OF this] obtain rs where
      rs: "r = (results @ [rec]) @ rs" "length rs \<le> length groups"
          "x = None \<longrightarrow> length rs = length groups"
      by blast
    have "r = results @ (rec # rs)" using rs(1) by simp
    moreover have "length (rec # rs) \<le> length (g # groups)" using rs(2) by simp
    moreover have "x = None \<longrightarrow> length (rec # rs) = length (g # groups)" using rs(3) by simp
    ultimately show ?thesis by blast
  qed
qed


lemma run_learners_appends:
  assumes "run_learners fo simulation k counts ints ls bi results = (r, x)"
  shows "\<exists>rs. r = results @ rs"
  using assms
proof (induction ls arbitrary: bi results)
  case Nil
  then show ?case by simp
next
  case (Cons jl ls)
  obtain j l where jl: "jl = (j, l)" by (cases jl)
  let ?rb = "run_batches fo simulation k counts j l (groupby (zip bi ints)) (l_state l) results"
  obtain r1 x1 where rb: "?rb = (r1, x1)" by (cases ?rb)
  from run_batches_appends [OF rb] obtain rs where rs: "r1 = results @ rs" by blast
  show ?case
  proof (cases x1)
    case None
    from Cons.prems jl rb None
    have "run_learners fo simulation k counts ints ls (drop (length ints + 2) bi) r1 = (r, x)"
      by simp
    from Cons.IH [OF this] obtain rs' where "r = r1 @ rs'" by blast
    with rs have "r = results @ (rs @ rs')" by simp
    then show ?thesis by blast
  next
    case (Some e)
    from Cons.prems jl rb Some have "r = r1" by simp
    with rs show ?thesis by blast
  qed
qed

lemma run_batches_stops:
  assumes "run_batches fo simulation k counts j l done s results = (results2, None)"
    and "run_batches fo simulation k counts j l (done @ [g]) s results = (r, Some e)"
  shows "run_batches fo simulation k counts j l (done @ g # remaining) s results = (results2, Some e)"
  using assms
proof (induction "done" arbitrary: s results)
  case Nil
  from Nil.prems(1) have r2: "results2 = results" by simp
  show ?case
  proof (cases "run_batch fo simulation k counts j l g s")
    case (Inl e')
    with Nil.prems(2) have "e' = e" by simp
    with Inl r2 show ?thesis by simp
  next
    case (Inr p)
    obtain rec s' where "p = (rec, s')" by (cases p)
    with Inr Nil.prems(2) show ?thesis by simp
  qed
next
  case (Cons d ds)
  show ?case
  proof (cases "run_batch fo simulation k counts j l d s")
    case (Inl e')
    with Cons.prems(1) show ?thesis by simp
  next
    case (Inr p)
    obtain rec s' where p: "p = (rec, s')" by (cases p)
    from Cons.prems(1) Inr p
    have 1: "run_batches fo simulation k counts j l ds s' (results @ [rec]) = (results2, None)"
      by simp
    from Cons.prems(2) Inr p
    have 2: "run_batches fo simulation k counts j l (ds @ [g]) s' (results @ [rec]) = (r, Some e)"
      by simp
    from Cons.IH [OF 1 2] Inr p show ?thesis by simp
  qed
qed


text \<open>
  Claim C1: \<open>evaluate\<close> emits exactly one Result per (learner, environment, batch):
  for an environment whose schedule yields \<open>B\<close> batches, every learner factory of the
  sequence, also of a sequence of two or more, receives \<open>B\<close> Results for it.

  The test simulation with five interactions and the schedule \<open>[3, 2]\<close> has two batches.
  As a \<open>MemorySimulation\<close>, which has no attribute \<open>rewards\<close>, it gives the one learner no
  Result at all: the first batch raises AttributeError. On an object that does offer
  \<open>rewards\<close> the first learner receives its two Results and the second learner none:
  \<open>batch_indexes\<close> is a single iterator, which the first learner's \<open>zip\<close> has used up.
\<close>

theorem evaluate_results_per_learner:
  "evaluate id (sizes_policy [3, 2]) [memory_simulation (test_interactions 5)] [test_learner ''0'']
     = Some (Inr [], [AttributeError]) \<and>
   evaluate id (sizes_policy [3, 2])
     [with_rewards (test_reward 5) (memory_simulation (test_interactions 5))]
     [test_learner ''0'', test_learner ''1'']
     = Some (Inr [\<lparr>learner_name = ''0'', simulation_index = 0, batch_index = 0,
                     interaction_count = 5, median_feature_count = 1, median_action_count = 3,
                     stats = [0, 1, 2]\<rparr>,
                  \<lparr>learner_name = ''0'', simulation_index = 0, batch_index = 1,
                     interaction_count = 5, median_feature_count = 1, median_action_count = 3,
                     stats = [0, 1]\<rparr>], [])"
  by code_simp


text \<open>
  Claim C2: \<open>evaluate\<close> calls \<open>simulation.rewards\<close>, and the simulations of the module
  define \<open>reward\<close>; so for every such simulation and every non-empty sequence of learner
  factories the first batch raises AttributeError, the handler of the simulation logs
  it, and \<open>evaluate\<close> returns with no Result for that simulation.

  No Result is emitted indeed, but the first batch is not always reached, and
  \<open>evaluate\<close> does not always return: a simulation without interactions raises
  StatisticsError in \<open>median\<close>, an empty schedule has no batch and logs nothing, a
  learner whose \<open>choose\<close> raises ends the batch before \<open>rewards\<close> is read, and on a
  lazy simulation \<open>simulation.unload()\<close> raises outside the handler.
\<close>

theorem evaluate_without_rewards_other_outcomes:
  "evaluate id (sizes_policy [3, 2]) [memory_simulation (test_interactions 0)] [test_learner ''0'']
     = Some (Inr [], [StatisticsError]) \<and>
   evaluate id (sizes_policy []) [memory_simulation (test_interactions 5)] [test_learner ''0'']
     = Some (Inr [], []) \<and>
   evaluate id (sizes_policy [3, 2]) [memory_simulation (test_interactions 5)] [raising_learner ''0'']
     = Some (Inr [], [UserError ''choose'']) \<and>
   evaluate id (sizes_policy [3, 2]) [lazy_simulation] [test_learner ''0'']
     = Some (Inl AttributeError, [AttributeError])"
  by code_simp


text \<open>
  Claim C2, amended: for every simulation without the attribute \<open>rewards\<close> (every
  simulation of the module) \<open>evaluate\<close> emits no Result for that simulation; when the
  simulation is not lazy and has an interaction, the schedule has a first batch and the
  first learner's \<open>choose\<close> returns valid choices on it, the first batch raises
  AttributeError, the handler logs it and \<open>evaluate\<close> returns.
\<close>

theorem evaluate_without_rewards:
  assumes "s_rewards simulation = None"
  shows "(\<forall>out. run_simulation fo b ls k simulation results = Some out \<longrightarrow> fst out = results) \<and>
         (\<not> s_lazy simulation \<and> s_interactions simulation = Inr ints \<and> ints \<noteq> [] \<and>
          batch_sizes b (int (length ints)) = Some (Inr sizes) \<and>
          groupby (zip (batch_indexes_of sizes) ints) = g # gs \<and>
          choose_all l (l_state l) (snd g) = Inr chosen
          \<longrightarrow> evaluate fo b [simulation] (l # rest) = Some (Inr [], [AttributeError]))"
proof (intro conjI allI impI)
  fix out
  assume "run_simulation fo b ls k simulation results = Some out"
  with assms show "fst out = results" by (rule run_simulation_no_rewards)
next
  assume a: "\<not> s_lazy simulation \<and> s_interactions simulation = Inr ints \<and> ints \<noteq> [] \<and>
          batch_sizes b (int (length ints)) = Some (Inr sizes) \<and>
          groupby (zip (batch_indexes_of sizes) ints) = g # gs \<and>
          choose_all l (l_state l) (snd g) = Inr chosen"
  then have "run_simulation fo b (l # rest) 0 simulation [] = Some ([], Some AttributeError)"
    using assms by (intro run_simulation_first_batch) auto
  with a show "evaluate fo b [simulation] (l # rest) = Some (Inr [], [AttributeError])"
    by (simp add: evaluate_def)
qed

lemma first_group_3_2:
  "groupby (zip (batch_indexes_of [3, 2]) (test_interactions 5)) =
     [(0, take 3 (test_interactions 5)), (1, drop 3 (test_interactions 5))]"
  by code_simp

lemma first_choices_3_2:
  "choose_all (test_learner ''0'') () (take 3 (test_interactions 5)) =
     Inr ([(0, ValueContext 0, 0, 0), (1, ValueContext 1, 1, 1), (2, ValueContext 2, 2, 2)], ())"
  by code_simp

theorem evaluate_without_rewards_witness:
  "s_rewards (memory_simulation (test_interactions 5)) = None \<and>
   evaluate id (sizes_policy [3, 2]) [memory_simulation (test_interactions 5)] [test_learner ''0'']
     = Some (Inr ([] :: rat list result list), [AttributeError])"
proof -
  let ?sim = "memory_simulation (test_interactions 5)"
  let ?chosen = "([(0, ValueContext 0, 0, 0), (1, ValueContext 1, 1, 1), (2, ValueContext 2, 2, 2)], ())
                   :: (int \<times> int py_context \<times> int \<times> int) list \<times> unit"
  have n: "s_rewards ?sim = None" by (simp add: memory_simulation_def)
  have 1: "\<not> s_lazy ?sim" "s_interactions ?sim = Inr (test_interactions 5)"
    by (simp_all add: memory_simulation_def)
  have 2: "test_interactions 5 \<noteq> []" "int (length (test_interactions 5)) = 5"
    by (simp_all add: test_interactions_def)
  have 3: "batch_sizes (sizes_policy [3, 2]) (int (length (test_interactions 5))) = Some (Inr [3, 2])"
    by (simp add: 2 batch_sizes_def sizes_policy_def)
  have 4: "choose_all (test_learner ''0'') (l_state (test_learner ''0''))
             (snd (0 :: nat, take 3 (test_interactions 5))) = Inr ?chosen"
    using first_choices_3_2 by (simp add: test_learner_def)
  have "evaluate (id :: rat list \<Rightarrow> rat list) (sizes_policy [3, 2]) [?sim] (test_learner ''0'' # [])
          = Some (Inr [], [AttributeError])"
    using evaluate_without_rewards [OF n, where ints = "test_interactions 5" and sizes = "[3, 2]"
        and g = "(0, take 3 (test_interactions 5))" and gs = "[(1, drop 3 (test_interactions 5))]"
        and l = "test_learner ''0''" and chosen = ?chosen]
      1 2(1) 3 4 first_group_3_2
    by blast
  with n show ?thesis by simp
qed

text \<open>
  Claim C3: an exception raised by one learner's \<open>choose\<close> or \<open>learn\<close> fails only that
  (environment, learner) pair: it is logged, the pair's remaining batches are abandoned,
  and every later learner factory still gets its Results for the same environment.

  The \<open>try\<close> encloses the whole loop over the learner factories. With two interactions
  and the schedule \<open>[2, 2, 2]\<close> the second of two learners receives a Result when the
  first one runs to its end, and none when the first one raises.
\<close>

theorem later_learner_gets_no_results:
  "evaluate id (sizes_policy [2, 2, 2])
     [with_rewards (test_reward 2) (memory_simulation (test_interactions 2))]
     [test_learner ''0'', test_learner ''1'']
     = Some (Inr [\<lparr>learner_name = ''0'', simulation_index = 0, batch_index = 0,
                     interaction_count = 2, median_feature_count = 1, median_action_count = 3,
                     stats = [0, 1]\<rparr>,
                  \<lparr>learner_name = ''1'', simulation_index = 0, batch_index = 2,
                     interaction_count = 2, median_feature_count = 1, median_action_count = 3,
                     stats = [0, 1]\<rparr>], []) \<and>
   evaluate id (sizes_policy [2, 2, 2])
     [with_rewards (test_reward 2) (memory_simulation (test_interactions 2))]
     [raising_learner ''0'', test_learner ''1'']
     = Some (Inr ([] :: rat list result list), [UserError ''choose''])"
  by code_simp


text \<open>
  Claim C3, amended: an exception raised by one learner's \<open>choose\<close> or \<open>learn\<close> during
  the evaluation of one environment ends the evaluation of that environment: the loop
  logs it, abandons that pair's remaining batches and every later learner factory for
  the same environment, keeps the Results appended before it, and goes on with the next
  environment.

  In the theorem \<open>before\<close> are the learner factories that ran to their end, \<open>done\<close> the
  batches of the failing learner that ended before the batch \<open>g\<close> that raises \<open>e\<close>,
  \<open>remaining\<close> its later batches and \<open>after\<close> the later factories: the results handed
  to the next environment are the earlier ones followed by one Result for each batch of
  \<open>done\<close>, whatever \<open>remaining\<close> and \<open>after\<close> are.
\<close>

theorem learner_exception_ends_simulation:
  assumes "\<not> s_lazy simulation" "s_interactions simulation = Inr ints"
    and "median (map feature_count_of ints) = Inr mfc"
    and "median (map action_count_of ints) = Inr mac"
    and "batch_sizes b (int (length ints)) = Some (Inr sizes)"
    and "run_learners fo simulation k (length ints, mfc, mac) ints (enumerate 0 before)
           (batch_indexes_of sizes) results = (results1, None)"
    and "groupby (zip (drop (length before * (length ints + 2)) (batch_indexes_of sizes)) ints)
           = done @ g # remaining"
    and "run_batches fo simulation k (length ints, mfc, mac) (length before) l done
           (l_state l) results1 = (results2, None)"
    and "run_batches fo simulation k (length ints, mfc, mac) (length before) l (done @ [g])
           (l_state l) results1 = (r, Some e)"
  shows "evaluate_loop fo b (before @ l # after) ((k, simulation) # simulations) results logged =
           evaluate_loop fo b (before @ l # after) simulations results2 (logged @ [e]) \<and>
         (\<exists>earlier completed. results1 = results @ earlier \<and> results2 = results1 @ completed \<and>
            length completed = length done)"
proof -
  let ?c = "(length ints, mfc, mac)"
  let ?bi = "batch_indexes_of sizes"
  have "run_batches fo simulation k ?c (length before) l
          (groupby (zip (drop (length before * (length ints + 2)) ?bi) ints)) (l_state l) results1
        = (results2, Some e)"
    using run_batches_stops [OF assms(8,9)] assms(7) by simp
  with assms(6) have "run_learners fo simulation k ?c ints (enumerate 0 (before @ l # after)) ?bi results
        = (results2, Some e)"
    by (simp add: enumerate_append_eq run_learners_append)
  then have "run_simulation fo b (before @ l # after) k simulation results = Some (results2, Some e)"
    using assms(1-5) by (simp add: run_simulation_def)
  then have 1: "evaluate_loop fo b (before @ l # after) ((k, simulation) # simulations) results logged =
           evaluate_loop fo b (before @ l # after) simulations results2 (logged @ [e])"
    using assms(1) by simp
  from run_learners_appends [OF assms(6)]
  obtain earlier where 2: "results1 = results @ earlier" by blast
  from run_batches_appends [OF assms(8)]
  obtain completed where 3: "results2 = results1 @ completed" "length completed = length done"
    by blast
  from 1 2 3 show ?thesis by blast
qed

theorem learner_exception_ends_simulation_witness:
  "evaluate_loop id (sizes_policy [2, 2, 1]) ([] @ raising_from 2 ''0'' # [test_learner ''1''])
     [(0, with_rewards (test_reward 5) (memory_simulation (test_interactions 5)))] [] []
     = Some (Inr [\<lparr>learner_name = ''0'', simulation_index = 0, batch_index = 0,
                     interaction_count = 5, median_feature_count = 1, median_action_count = 3,
                     stats = [0, 1]\<rparr>], [UserError ''choose''])"
proof -
  let ?sim = "with_rewards (test_reward 5) (memory_simulation (test_interactions 5))"
  let ?ints = "test_interactions 5"
  let ?first = "\<lparr>learner_name = ''0'', simulation_index = 0, batch_index = 0,
                  interaction_count = 5, median_feature_count = 1, median_action_count = 3,
                  stats = [0, 1 :: rat]\<rparr>"
  let ?before = "[] :: (unit, int, int) learner list"
  have 1: "\<not> s_lazy ?sim" "s_interactions ?sim = Inr ?ints"
    by (simp_all add: with_rewards_def memory_simulation_def)
  have 2: "median (map feature_count_of ?ints) = Inr 1" by code_simp
  have 3: "median (map action_count_of ?ints) = Inr 3" by code_simp
  have 4: "batch_sizes (sizes_policy [2, 2, 1]) (int (length ?ints)) = Some (Inr [2, 2, 1])"
    by (simp add: batch_sizes_def sizes_policy_def)
  have 5: "run_learners id ?sim 0 (length ?ints, 1, 3) ?ints (enumerate 0 ?before)
             (batch_indexes_of [2, 2, 1]) ([] :: rat list result list) = ([], None)"
    by simp
  have 6: "groupby (zip (drop (length ?before * (length ?ints + 2)) (batch_indexes_of [2, 2, 1])) ?ints)
             = [(0, take 2 ?ints)] @ (1, take 2 (drop 2 ?ints)) # [(2, drop 4 ?ints)]"
    by code_simp
  have 7: "run_batches id ?sim 0 (length ?ints, 1, 3) (length ?before) (raising_from 2 ''0'')
             [(0, take 2 ?ints)] (l_state (raising_from 2 ''0'')) [] = ([?first], None)"
    by code_simp
  have 8: "run_batches id ?sim 0 (length ?ints, 1, 3) (length ?before) (raising_from 2 ''0'')
             ([(0, take 2 ?ints)] @ [(1, take 2 (drop 2 ?ints))]) (l_state (raising_from 2 ''0'')) []
           = ([?first], Some (UserError ''choose''))"
    by code_simp
  show ?thesis
    using learner_exception_ends_simulation [OF 1 2 3 4 5 6 7 8, of "[test_learner ''1'']" "[]" "[]"]
    by simp
qed


section \<open>coba/contexts/cachers.py: the locks of ConcurrentCacher\<close>

text \<open>
  The shared dictionary \<open>_dict\<close> maps a key to its lock state. The five methods below
  run under \<open>self._lock\<close>, so each is one atomic step on the dictionary.
  \<open>_acquired_read_lock\<close> and \<open>_acquired_write_lock\<close> return whether they took the
  lock; a caller that did not get it waits on the condition and tries again, which
  leaves the dictionary as it was.
\<close>

type_synonym 'k locks = "'k \<rightharpoonup> int"

definition acquired_read_lock :: "'k \<Rightarrow> 'k locks \<Rightarrow> 'k locks \<times> bool" where
  "acquired_read_lock key d =
     (if d key = None \<or> 0 \<le> the (d key)
      then (d(key \<mapsto> (case d key of None \<Rightarrow> 0 | Some n \<Rightarrow> n) + 1), True)
      else (d, False))"

definition release_read_lock :: "'k \<Rightarrow> 'k locks \<Rightarrow> exn + 'k locks" where
  "release_read_lock key d =
     (case d key of None \<Rightarrow> Inl KeyError | Some n \<Rightarrow> Inr (d(key \<mapsto> n - 1)))"

definition acquired_write_lock :: "'k \<Rightarrow> 'k locks \<Rightarrow> 'k locks \<times> bool" where
  "acquired_write_lock key d =
     (if d key = None \<or> d key = Some 0 then (d(key \<mapsto> - 1), True) else (d, False))"

definition switch_write_to_read_lock :: "'k \<Rightarrow> 'k locks \<Rightarrow> 'k locks" where
  "switch_write_to_read_lock key d = d(key \<mapsto> 1)"

definition release_write_lock :: "'k \<Rightarrow> 'k locks \<Rightarrow> 'k locks" where
  "release_write_lock key d = d(key \<mapsto> 0)"

text \<open>
  A call of \<open>get\<close>, \<open>put\<close>, \<open>rmv\<close> or \<open>get_put\<close> is a task: the point its caller
  has reached between two atomic steps. \<open>Get_release\<close> stands for the read lock held
  after \<open>get\<close> fetched the value: it is released at once, or when the generator that
  \<open>_generator_release\<close> returned has been drained. In \<open>get_put\<close> the recheck under
  the write lock leads to \<open>_cache.get_put\<close>, the switch to a read lock and its release
  (\<open>GetPut_switch_new\<close>, \<open>GetPut_release_new\<close>), or to the switch, the nested
  \<open>self.get\<close> and two releases (\<open>GetPut_switch_old\<close>, \<open>GetPut_get\<close>,
  \<open>GetPut_release_first\<close>, \<open>GetPut_release_second\<close>).
\<close>

datatype 'k task =
    Get_acquire 'k | Get_release 'k
  | Put_acquire 'k | Put_store 'k | Put_release 'k
  | Rmv_acquire 'k | Rmv_remove 'k | Rmv_release 'k
  | GetPut_check 'k | GetPut_acquire 'k | GetPut_recheck 'k
  | GetPut_switch_new 'k | GetPut_release_new 'k
  | GetPut_switch_old 'k | GetPut_get 'k | GetPut_release_first 'k | GetPut_release_second 'k
  | Finished

text \<open>
  One step of one task, on the dictionary and on the set of keys that the wrapped cacher
  holds. A task whose acquisition fails has no step. A task that is never run again is a
  caller that an exception of the wrapped cacher interrupted, or a generator that nobody
  drains: it keeps what it holds.
\<close>

inductive task_step :: "'k locks \<Rightarrow> 'k set \<Rightarrow> 'k task \<Rightarrow> 'k locks \<Rightarrow> 'k set \<Rightarrow> 'k task \<Rightarrow> bool" where
  get_acquire: "acquired_read_lock k d = (d', True) \<Longrightarrow> task_step d c (Get_acquire k) d' c (Get_release k)"
| get_release: "release_read_lock k d = Inr d' \<Longrightarrow> task_step d c (Get_release k) d' c Finished"
| put_acquire: "acquired_write_lock k d = (d', True) \<Longrightarrow> task_step d c (Put_acquire k) d' c (Put_store k)"
| put_store: "task_step d c (Put_store k) d (insert k c) (Put_release k)"
| put_release: "task_step d c (Put_release k) (release_write_lock k d) c Finished"
| rmv_acquire: "acquired_write_lock k d = (d', True) \<Longrightarrow> task_step d c (Rmv_acquire k) d' c (Rmv_remove k)"
| rmv_remove: "task_step d c (Rmv_remove k) d (c - {k}) (Rmv_release k)"
| rmv_release: "task_step d c (Rmv_release k) (release_write_lock k d) c Finished"
| get_put_cached: "k \<in> c \<Longrightarrow> task_step d c (GetPut_check k) d c (Get_acquire k)"
| get_put_missing: "k \<notin> c \<Longrightarrow> task_step d c (GetPut_check k) d c (GetPut_acquire k)"
| get_put_acquire: "acquired_write_lock k d = (d', True) \<Longrightarrow> task_step d c (GetPut_acquire k) d' c (GetPut_recheck k)"
| get_put_new: "k \<notin> c \<Longrightarrow> task_step d c (GetPut_recheck k) d (insert k c) (GetPut_switch_new k)"
| get_put_old: "k \<in> c \<Longrightarrow> task_step d c (GetPut_recheck k) d c (GetPut_switch_old k)"
| get_put_switch_new: "task_step d c (GetPut_switch_new k) (switch_write_to_read_lock k d) c (GetPut_release_new k)"
| get_put_release_new: "release_read_lock k d = Inr d' \<Longrightarrow> task_step d c (GetPut_release_new k) d' c Finished"
| get_put_switch_old: "task_step d c (GetPut_switch_old k) (switch_write_to_read_lock k d) c (GetPut_get k)"
| get_put_get: "acquired_read_lock k d = (d', True) \<Longrightarrow> task_step d c (GetPut_get k) d' c (GetPut_release_first k)"
| get_put_release_first: "release_read_lock k d = Inr d' \<Longrightarrow> task_step d c (GetPut_release_first k) d' c (GetPut_release_second k)"
| get_put_release_second: "release_read_lock k d = Inr d' \<Longrightarrow> task_step d c (GetPut_release_second k) d' c Finished"

text \<open>
  Processes and threads share the dictionary and interleave their steps in any order.
  The state of the system is the dictionary, the keys of the wrapped cacher and the
  multiset of the tasks under way; any caller may start a new call at any time (also while
  a generator it got earlier is not drained).
\<close>

definition is_call :: "'k task \<Rightarrow> bool" where
  "is_call t = (case t of Get_acquire _ \<Rightarrow> True | Put_acquire _ \<Rightarrow> True | Rmv_acquire _ \<Rightarrow> True
                 | GetPut_check _ \<Rightarrow> True | _ \<Rightarrow> False)"

inductive cacher_step :: "'k locks \<times> 'k set \<times> 'k task multiset \<Rightarrow> 'k locks \<times> 'k set \<times> 'k task multiset \<Rightarrow> bool" where
  call: "is_call t \<Longrightarrow> cacher_step (d, c, M) (d, c, add_mset t M)"
| run: "task_step d c t d' c' t' \<Longrightarrow> cacher_step (d, c, add_mset t M) (d', c', add_mset t' M)"

inductive reachable :: "'k locks \<times> 'k set \<times> 'k task multiset \<Rightarrow> bool" where
  init: "(\<And>k. d k = None \<or> d k = Some 0) \<Longrightarrow> reachable (d, c, {#})"
| step: "reachable s \<Longrightarrow> cacher_step s s' \<Longrightarrow> reachable s'"

text \<open>The locks a task holds at its point, per key.\<close>

fun reads_held :: "'k \<Rightarrow> 'k task \<Rightarrow> nat" where
  "reads_held k (Get_release k') = (if k' = k then 1 else 0)"
| "reads_held k (GetPut_release_new k') = (if k' = k then 1 else 0)"
| "reads_held k (GetPut_get k') = (if k' = k then 1 else 0)"
| "reads_held k (GetPut_release_first k') = (if k' = k then 2 else 0)"
| "reads_held k (GetPut_release_second k') = (if k' = k then 1 else 0)"
| "reads_held k _ = 0"

fun writes_held :: "'k \<Rightarrow> 'k task \<Rightarrow> nat" where
  "writes_held k (Put_store k') = (if k' = k then 1 else 0)"
| "writes_held k (Put_release k') = (if k' = k then 1 else 0)"
| "writes_held k (Rmv_remove k') = (if k' = k then 1 else 0)"
| "writes_held k (Rmv_release k') = (if k' = k then 1 else 0)"
| "writes_held k (GetPut_recheck k') = (if k' = k then 1 else 0)"
| "writes_held k (GetPut_switch_new k') = (if k' = k then 1 else 0)"
| "writes_held k (GetPut_switch_old k') = (if k' = k then 1 else 0)"
| "writes_held k _ = 0"

definition readers :: "'k \<Rightarrow> 'k task multiset \<Rightarrow> nat" where
  "readers k M = sum_mset (image_mset (reads_held k) M)"

definition writers :: "'k \<Rightarrow> 'k task multiset \<Rightarrow> nat" where
  "writers k M = sum_mset (image_mset (writes_held k) M)"

definition lock_inv :: "'k locks \<Rightarrow> 'k task multiset \<Rightarrow> 'k \<Rightarrow> bool" where
  "lock_inv d M k =
     (if writers k M = 0
      then (case d k of None \<Rightarrow> readers k M = 0 | Some n \<Rightarrow> n = int (readers k M))
      else writers k M = 1 \<and> readers k M = 0 \<and> d k = Some (- 1))"


subsection \<open>The lock invariant\<close>

lemma readers_empty [simp]: "readers k {#} = 0"
  by (simp add: readers_def)

lemma writers_empty [simp]: "writers k {#} = 0"
  by (simp add: writers_def)

lemma readers_add [simp]: "readers k (add_mset t M) = reads_held k t + readers k M"
  by (simp add: readers_def)

lemma writers_add [simp]: "writers k (add_mset t M) = writes_held k t + writers k M"
  by (simp add: writers_def)

lemma call_holds_nothing: "is_call t \<Longrightarrow> reads_held k t = 0 \<and> writes_held k t = 0"
  by (cases t) (simp_all add: is_call_def)

lemma task_step_inv:
  assumes "task_step d c t d' c' t'" "lock_inv d (add_mset t M) k"
  shows "lock_inv d' (add_mset t' M) k"
  using assms
  by (induction rule: task_step.induct)
     (auto simp: lock_inv_def acquired_read_lock_def release_read_lock_def acquired_write_lock_def
        switch_write_to_read_lock_def release_write_lock_def
        split: if_splits option.splits)

lemma cacher_step_inv:
  assumes "cacher_step s s'" "\<forall>k. lock_inv (fst s) (snd (snd s)) k"
  shows "\<forall>k. lock_inv (fst s') (snd (snd s')) k"
  using assms
proof (induction rule: cacher_step.induct)
  case (call t d c M)
  show ?case
  proof
    fix k
    from call.prems have "lock_inv d M k" by simp
    then show "lock_inv (fst (d, c, add_mset t M)) (snd (snd (d, c, add_mset t M))) k"
      using call_holds_nothing [OF call.hyps, of k]
      by (auto simp: lock_inv_def split: option.splits if_splits)
  qed
next
  case (run d c t d' c' t' M)
  show ?case
  proof
    fix k
    from run.prems have "lock_inv d (add_mset t M) k" by simp
    with run.hyps have "lock_inv d' (add_mset t' M) k" by (rule task_step_inv)
    then show "lock_inv (fst (d', c', add_mset t' M)) (snd (snd (d', c', add_mset t' M))) k" by simp
  qed
qed

lemma reachable_inv: "reachable s \<Longrightarrow> \<forall>k. lock_inv (fst s) (snd (snd s)) k"
proof (induction rule: reachable.induct)
  case (init d c)
  show ?case
  proof
    fix k
    from init [of k] show "lock_inv (fst (d, c, {#})) (snd (snd (d, c, {#}))) k"
      by (auto simp: lock_inv_def readers_def writers_def split: option.splits)
  qed
next
  case (step s s')
  then show ?case using cacher_step_inv by blast
qed


lemma acquired_write_lock_only_idle:
  "acquired_write_lock k d = (d', True) \<Longrightarrow> (d k = None \<or> d k = Some 0) \<and> d' k = Some (- 1)"
  by (auto simp: acquired_write_lock_def split: if_splits)

text \<open>
  Claim C8: for every sequence of ConcurrentCacher operations (\<open>get\<close>, \<open>put\<close>,
  \<open>rmv\<close>, \<open>get_put\<close>, with the deferred releases of drained generators) each lock
  state \<open>s[k]\<close> stays absent, a count of readers \<open>0, 1, 2, ...\<close> or \<open>-1\<close>; a write lock
  is acquired only when the key is absent or \<open>s[k] = 0\<close>; so readers and the writer
  exclude each other and at most one writer holds a key.

  In every reachable state and for every key: the state is absent or at least \<open>-1\<close>; at
  most one task holds the write lock; it holds it exactly when the state is \<open>-1\<close>, and
  then no task holds a read lock; otherwise the state is the number of read locks held
  (absent only when there is none); and a write lock can be taken only from absent or 0,
  when nothing is held.
\<close>

theorem concurrent_cacher_lock_invariant:
  assumes "reachable (d, c, M)"
  shows "(d k = None \<or> (\<exists>n. d k = Some n \<and> - 1 \<le> n)) \<and>
         writers k M \<le> 1 \<and>
         (writers k M = 1 \<longleftrightarrow> d k = Some (- 1)) \<and>
         (writers k M = 1 \<longrightarrow> readers k M = 0) \<and>
         (writers k M = 0 \<longrightarrow> d k = None \<and> readers k M = 0 \<or> d k = Some (int (readers k M))) \<and>
         (\<forall>d'. acquired_write_lock k d = (d', True) \<longrightarrow>
            (d k = None \<or> d k = Some 0) \<and> d' k = Some (- 1) \<and>
            readers k M = 0 \<and> writers k M = 0)"
proof -
  from reachable_inv [OF assms] have inv: "lock_inv d M k" by simp
  have "acquired_write_lock k d = (d', True) \<longrightarrow>
          (d k = None \<or> d k = Some 0) \<and> d' k = Some (- 1) \<and> readers k M = 0 \<and> writers k M = 0" for d'
    using inv acquired_write_lock_only_idle [of k d d']
    by (auto simp: lock_inv_def split: if_splits option.splits)
  moreover have "(d k = None \<or> (\<exists>n. d k = Some n \<and> - 1 \<le> n)) \<and>
         writers k M \<le> 1 \<and>
         (writers k M = 1 \<longleftrightarrow> d k = Some (- 1)) \<and>
         (writers k M = 1 \<longrightarrow> readers k M = 0) \<and>
         (writers k M = 0 \<longrightarrow> d k = None \<and> readers k M = 0 \<or> d k = Some (int (readers k M)))"
    using inv by (auto simp: lock_inv_def split: if_splits option.splits)
  ultimately show ?thesis by blast
qed

theorem concurrent_cacher_lock_invariant_witness:
  "reachable (Map.empty(1 :: nat \<mapsto> - 1 :: int), {} :: nat set, {#Put_store 1#}) \<and>
   writers 1 {#Put_store (1 :: nat)#} = 1 \<and> readers 1 {#Put_store (1 :: nat)#} = 0 \<and>
   acquired_write_lock 1 (Map.empty(1 :: nat \<mapsto> - 1 :: int)) = (Map.empty(1 \<mapsto> - 1), False)"
proof -
  have "reachable (Map.empty :: nat locks, {} :: nat set, {#})"
    by (rule reachable.init) simp
  moreover have "cacher_step (Map.empty :: nat locks, {} :: nat set, {#})
                   (Map.empty, {}, add_mset (Put_acquire 1) {#})"
    by (rule cacher_step.call) (simp add: is_call_def)
  ultimately have "reachable (Map.empty :: nat locks, {} :: nat set, add_mset (Put_acquire 1) {#})"
    by (rule reachable.step)
  moreover have "cacher_step (Map.empty :: nat locks, {} :: nat set, add_mset (Put_acquire 1) {#})
                   (Map.empty(1 \<mapsto> - 1), {}, add_mset (Put_store 1) {#})"
    by (rule cacher_step.run, rule task_step.put_acquire) (simp add: acquired_write_lock_def)
  ultimately have r: "reachable (Map.empty(1 :: nat \<mapsto> - 1 :: int), {} :: nat set, {#Put_store 1#})"
    by (rule reachable.step)
  from concurrent_cacher_lock_invariant [OF r, of 1] have "readers 1 {#Put_store (1 :: nat)#} = 0"
    by simp
  with r show ?thesis by (simp add: acquired_write_lock_def)
qed

end
